theory Spec2Isabelle
  imports Main "HOL-Library.Word"
begin

unbundle bit_operations_syntax

section \<open>Machine integers\<close>

text \<open>
  The fixed-width integer types of the header. Unsigned values are read with \<open>uint\<close>,
  signed ones with \<open>sint\<close>. A C++ integer promotion of an unsigned 16-bit value to
  \<open>int\<close> is \<open>ucast\<close> to 32 bits, the promotion of a signed 16-bit value is
  \<open>scast\<close> (sign extension); the conversion back on assignment is \<open>ucast\<close> to the
  narrower type, which keeps the low bits.
\<close>

type_synonym int16_t = "16 word"
type_synonym uint16_t = "16 word"
type_synonym int32_t = "32 word"
type_synonym uint32_t = "32 word"
type_synonym uint64_t = "64 word"

section \<open>IRect16\<close>

record IRect16 =
  fLeft :: int16_t
  fTop :: int16_t
  fRight :: int16_t
  fBottom :: int16_t

definition IRect16_set :: "int16_t \<Rightarrow> int16_t \<Rightarrow> int16_t \<Rightarrow> int16_t \<Rightarrow> IRect16" where
  "IRect16_set l t r b =
     \<lparr>IRect16.fLeft = l, IRect16.fTop = t, IRect16.fRight = r, IRect16.fBottom = b\<rparr>"

text \<open>\<open>MakeXYWH\<close>: \<open>x + w\<close> is computed in \<open>int\<close> and narrowed to 16 bits by \<open>set\<close>.\<close>

definition MakeXYWH :: "int16_t \<Rightarrow> int16_t \<Rightarrow> int16_t \<Rightarrow> int16_t \<Rightarrow> IRect16" where
  "MakeXYWH x y w h =
     IRect16_set x y (ucast ((scast x :: int32_t) + scast w)) (ucast ((scast y :: int32_t) + scast h))"

definition IRect16_width :: "IRect16 \<Rightarrow> int32_t" where
  "IRect16_width r = scast (IRect16.fRight r) - scast (IRect16.fLeft r)"

definition IRect16_height :: "IRect16 \<Rightarrow> int32_t" where
  "IRect16_height r = scast (IRect16.fBottom r) - scast (IRect16.fTop r)"

definition IRect16_offset :: "IRect16 \<Rightarrow> int16_t \<Rightarrow> int16_t \<Rightarrow> IRect16" where
  "IRect16_offset r dx dy =
     \<lparr>IRect16.fLeft = ucast ((scast (IRect16.fLeft r) :: int32_t) + scast dx),
      IRect16.fTop = ucast ((scast (IRect16.fTop r) :: int32_t) + scast dy),
      IRect16.fRight = ucast ((scast (IRect16.fRight r) :: int32_t) + scast dx),
      IRect16.fBottom = ucast ((scast (IRect16.fBottom r) :: int32_t) + scast dy)\<rparr>"

section \<open>MaskFormat\<close>

datatype MaskFormat = kA8 | kA565 | kARGB

text \<open>\<open>static_cast<int>(format)\<close>: the enumerators are 0-based in declaration order.\<close>

fun MaskFormat_to_int :: "MaskFormat \<Rightarrow> int32_t" where
  "MaskFormat_to_int kA8 = 0"
| "MaskFormat_to_int kA565 = 1"
| "MaskFormat_to_int kARGB = 2"

definition kLast :: MaskFormat where
  "kLast = kARGB"

definition kMaskFormatCount :: int32_t where
  "kMaskFormatCount = MaskFormat_to_int kLast + 1"

text \<open>
  \<open>SkTo<int>(1u << static_cast<int>(format))\<close>: an unsigned 32-bit shift, converted to
  \<open>int\<close> of the same width.
\<close>

definition MaskFormatBytesPerPixel :: "MaskFormat \<Rightarrow> int32_t" where
  "MaskFormatBytesPerPixel format =
     ucast (push_bit (unat (MaskFormat_to_int format)) (1 :: uint32_t))"

section \<open>AtlasGenerationCounter\<close>

record AtlasGenerationCounter =
  fGeneration :: uint64_t

definition kInvalidGeneration :: uint64_t where
  "kInvalidGeneration = 0"

text \<open>The member initialiser \<open>fGeneration{1}\<close>.\<close>

definition AtlasGenerationCounter_init :: AtlasGenerationCounter where
  "AtlasGenerationCounter_init = \<lparr>fGeneration = 1\<rparr>"

text \<open>
  \<open>next()\<close> is \<open>return fGeneration++\<close>: the value before the increment is returned, the
  increment is that of an unsigned 64-bit integer and wraps. The result is the returned
  value and the counter after the call.
\<close>

definition AtlasGenerationCounter_next ::
  "AtlasGenerationCounter \<Rightarrow> uint64_t \<times> AtlasGenerationCounter" where
  "AtlasGenerationCounter_next c = (fGeneration c, c\<lparr>fGeneration := fGeneration c + 1\<rparr>)"

text \<open>The values returned by \<open>n\<close> successive calls of \<open>next()\<close> on one counter, oldest first.\<close>

fun next_calls :: "nat \<Rightarrow> AtlasGenerationCounter \<Rightarrow> uint64_t list" where
  "next_calls 0 c = []"
| "next_calls (Suc n) c =
     (case AtlasGenerationCounter_next c of (v, c') \<Rightarrow> v # next_calls n c')"

section \<open>PlotLocator\<close>

definition kMaxMultitexturePages :: uint32_t where
  "kMaxMultitexturePages = 4"

definition kMaxPlots :: uint32_t where
  "kMaxPlots = 32"

text \<open>The three bit-fields \<open>fGenID:48\<close>, \<open>fPlotIndex:8\<close>, \<open>fPageIndex:8\<close>.\<close>

record PlotLocator =
  fGenID :: "48 word"
  fPlotIndex :: "8 word"
  fPageIndex :: "8 word"

text \<open>
  The three-argument constructor. Storing into a bit-field keeps the low bits of the
  argument. Its three \<open>SkASSERT\<close>s, which only a debug build checks, are
  \<open>PlotLocator_asserts\<close>.
\<close>

definition PlotLocator_ctor :: "uint32_t \<Rightarrow> uint32_t \<Rightarrow> uint64_t \<Rightarrow> PlotLocator" where
  "PlotLocator_ctor pageIdx plotIdx generation =
     \<lparr>PlotLocator.fGenID = ucast generation,
      PlotLocator.fPlotIndex = ucast plotIdx,
      PlotLocator.fPageIndex = ucast pageIdx\<rparr>"

definition PlotLocator_asserts :: "uint32_t \<Rightarrow> uint32_t \<Rightarrow> uint64_t \<Rightarrow> bool" where
  "PlotLocator_asserts pageIdx plotIdx generation \<longleftrightarrow>
     pageIdx < kMaxMultitexturePages \<and> plotIdx < kMaxPlots \<and> generation < push_bit 48 1"

text \<open>The default constructor.\<close>

definition PlotLocator_default :: PlotLocator where
  "PlotLocator_default =
     \<lparr>PlotLocator.fGenID = ucast kInvalidGeneration,
      PlotLocator.fPlotIndex = 0,
      PlotLocator.fPageIndex = 0\<rparr>"

definition isValid :: "PlotLocator \<Rightarrow> bool" where
  "isValid p \<longleftrightarrow>
     PlotLocator.fGenID p \<noteq> 0 \<or> PlotLocator.fPlotIndex p \<noteq> 0 \<or> PlotLocator.fPageIndex p \<noteq> 0"

definition makeInvalid :: "PlotLocator \<Rightarrow> PlotLocator" where
  "makeInvalid p =
     p\<lparr>PlotLocator.fGenID := 0, PlotLocator.fPlotIndex := 0, PlotLocator.fPageIndex := 0\<rparr>"

text \<open>\<open>operator==\<close>.\<close>

definition PlotLocator_eq :: "PlotLocator \<Rightarrow> PlotLocator \<Rightarrow> bool" where
  "PlotLocator_eq a other \<longleftrightarrow>
     PlotLocator.fGenID a = PlotLocator.fGenID other \<and>
     PlotLocator.fPlotIndex a = PlotLocator.fPlotIndex other \<and>
     PlotLocator.fPageIndex a = PlotLocator.fPageIndex other"

definition PlotLocator_pageIndex :: "PlotLocator \<Rightarrow> uint32_t" where
  "PlotLocator_pageIndex p = ucast (PlotLocator.fPageIndex p)"

definition PlotLocator_plotIndex :: "PlotLocator \<Rightarrow> uint32_t" where
  "PlotLocator_plotIndex p = ucast (PlotLocator.fPlotIndex p)"

definition PlotLocator_genID :: "PlotLocator \<Rightarrow> uint64_t" where
  "PlotLocator_genID p = ucast (PlotLocator.fGenID p)"

section \<open>AtlasLocator\<close>

record SkIPoint =
  fX :: int32_t
  fY :: int32_t

text \<open>
  The array \<open>fUVs\<close> has exactly four elements; \<open>fUVs[i]\<close> is the field \<open>fUVsi\<close>.
\<close>

record AtlasLocator =
  fPlotLocator :: PlotLocator
  fUVs0 :: uint16_t
  fUVs1 :: uint16_t
  fUVs2 :: uint16_t
  fUVs3 :: uint16_t

text \<open>The member initialisers \<open>fPlotLocator{0, 0, 0}\<close> and \<open>fUVs{0, 0, 0, 0}\<close>.\<close>

definition AtlasLocator_init :: AtlasLocator where
  "AtlasLocator_init =
     \<lparr>fPlotLocator = PlotLocator_ctor 0 0 0, fUVs0 = 0, fUVs1 = 0, fUVs2 = 0, fUVs3 = 0\<rparr>"

definition getUVs :: "AtlasLocator \<Rightarrow> uint16_t list" where
  "getUVs loc = [fUVs0 loc, fUVs1 loc, fUVs2 loc, fUVs3 loc]"

definition invalidatePlotLocator :: "AtlasLocator \<Rightarrow> AtlasLocator" where
  "invalidatePlotLocator loc = loc\<lparr>fPlotLocator := makeInvalid (fPlotLocator loc)\<rparr>"

definition plotLocator :: "AtlasLocator \<Rightarrow> PlotLocator" where
  "plotLocator loc = fPlotLocator loc"

definition AtlasLocator_pageIndex :: "AtlasLocator \<Rightarrow> uint32_t" where
  "AtlasLocator_pageIndex loc = PlotLocator_pageIndex (fPlotLocator loc)"

definition AtlasLocator_plotIndex :: "AtlasLocator \<Rightarrow> uint32_t" where
  "AtlasLocator_plotIndex loc = PlotLocator_plotIndex (fPlotLocator loc)"

definition AtlasLocator_genID :: "AtlasLocator \<Rightarrow> uint64_t" where
  "AtlasLocator_genID loc = PlotLocator_genID (fPlotLocator loc)"

definition topLeft :: "AtlasLocator \<Rightarrow> SkIPoint" where
  "topLeft loc = \<lparr>fX = ucast (fUVs0 loc) AND 0x1FFF, fY = ucast (fUVs1 loc)\<rparr>"

text \<open>
  \<open>width()\<close> and \<open>height()\<close>: the operands are promoted to \<open>int\<close>, subtracted, and the
  difference is converted to the \<open>uint16_t\<close> return type.
\<close>

definition AtlasLocator_width :: "AtlasLocator \<Rightarrow> uint16_t" where
  "AtlasLocator_width loc = ucast ((ucast (fUVs2 loc) :: int32_t) - ucast (fUVs0 loc))"

definition AtlasLocator_height :: "AtlasLocator \<Rightarrow> uint16_t" where
  "AtlasLocator_height loc = ucast ((ucast (fUVs3 loc) :: int32_t) - ucast (fUVs1 loc))"

text \<open>
  \<open>insetSrc(int padding)\<close>. The two \<open>SkASSERT\<close>s compare in \<open>int\<close>; they are
  \<open>insetSrc_asserts\<close>, stated on the integers themselves (\<open>2 * padding\<close> that overflows
  \<open>int\<close> is undefined in the source). Each compound assignment computes in \<open>int\<close> and
  stores the low 16 bits.
\<close>

definition insetSrc_asserts :: "AtlasLocator \<Rightarrow> int32_t \<Rightarrow> bool" where
  "insetSrc_asserts loc padding \<longleftrightarrow>
     2 * sint padding \<le> uint (AtlasLocator_width loc) \<and>
     2 * sint padding \<le> uint (AtlasLocator_height loc)"

definition insetSrc :: "AtlasLocator \<Rightarrow> int32_t \<Rightarrow> AtlasLocator" where
  "insetSrc loc padding =
     loc\<lparr>fUVs0 := ucast ((ucast (fUVs0 loc) :: int32_t) + padding),
         fUVs1 := ucast ((ucast (fUVs1 loc) :: int32_t) + padding),
         fUVs2 := ucast ((ucast (fUVs2 loc) :: int32_t) - padding),
         fUVs3 := ucast ((ucast (fUVs3 loc) :: int32_t) - padding)\<rparr>"

text \<open>
  \<open>updatePlotLocator(PlotLocator p)\<close>. \<open>page\<close> is the 32-bit \<open>pageIndex() << 13\<close>
  narrowed to \<open>uint16_t\<close>. The \<open>SkASSERT\<close> is \<open>updatePlotLocator_asserts\<close>.
\<close>

definition updatePlotLocator_asserts :: "PlotLocator \<Rightarrow> bool" where
  "updatePlotLocator_asserts p \<longleftrightarrow> PlotLocator_pageIndex p \<le> 3"

definition updatePlotLocator :: "AtlasLocator \<Rightarrow> PlotLocator \<Rightarrow> AtlasLocator" where
  "updatePlotLocator loc p =
     (let page = (ucast (push_bit 13 (PlotLocator_pageIndex p)) :: uint16_t) in
      loc\<lparr>fPlotLocator := p,
          fUVs0 := ucast (((ucast (fUVs0 loc) :: int32_t) AND 0x1FFF) OR ucast page),
          fUVs2 := ucast (((ucast (fUVs2 loc) :: int32_t) AND 0x1FFF) OR ucast page)\<rparr>)"

text \<open>
  \<open>updateRect(IRect16 rect)\<close>. The fields of \<open>rect\<close> are signed and are sign-extended
  by the promotion to \<open>int\<close>; the assignment stores the low 16 bits. The two
  \<open>SkASSERT\<close>s are \<open>updateRect_asserts\<close>.
\<close>

definition updateRect_asserts :: "IRect16 \<Rightarrow> bool" where
  "updateRect_asserts rect \<longleftrightarrow>
     sint (IRect16.fLeft rect) \<le> sint (IRect16.fRight rect) \<and>
     sint (IRect16.fRight rect) \<le> 0x1FFF"

definition updateRect :: "AtlasLocator \<Rightarrow> IRect16 \<Rightarrow> AtlasLocator" where
  "updateRect loc rect =
     loc\<lparr>fUVs0 := ucast (((ucast (fUVs0 loc) :: int32_t) AND 0xE000) OR scast (IRect16.fLeft rect)),
         fUVs1 := IRect16.fTop rect,
         fUVs2 := ucast (((ucast (fUVs2 loc) :: int32_t) AND 0xE000) OR scast (IRect16.fRight rect)),
         fUVs3 := IRect16.fBottom rect\<rparr>"

text \<open>
  A run of the operations that mutate the rectangle of one AtlasLocator. A call whose
  \<open>SkASSERT\<close>s fail, or that passes a negative left coordinate or a negative padding,
  ends the run with \<open>None\<close>.
\<close>

datatype rect_op = UpdateRect IRect16 | InsetSrc int32_t

fun run_rect_ops :: "AtlasLocator \<Rightarrow> rect_op list \<Rightarrow> AtlasLocator option" where
  "run_rect_ops loc [] = Some loc"
| "run_rect_ops loc (UpdateRect rect # ops) =
     (if 0 \<le> sint (IRect16.fLeft rect) \<and> updateRect_asserts rect
      then run_rect_ops (updateRect loc rect) ops else None)"
| "run_rect_ops loc (InsetSrc padding # ops) =
     (if 0 \<le> sint padding \<and> insetSrc_asserts loc padding
      then run_rect_ops (insetSrc loc padding) ops else None)"

section \<open>Plot\<close>

text \<open>
  \<open>SkIPoint16\<close> and \<open>SkIRect\<close> are declared in headers this one includes; only their
  fields are used here.
\<close>

record SkIPoint16 =
  fX :: int16_t
  fY :: int16_t

record SkIRect =
  fLeft :: int32_t
  fTop :: int32_t
  fRight :: int32_t
  fBottom :: int32_t

text \<open>
  The data members of \<open>Plot\<close>. The packer \<open>fRectanizer\<close> has the abstract state
  \<open>'r\<close>, the colour type is \<open>'c\<close>, and the staging buffer \<open>fData\<close> maps a pixel
  position of the Plot to its pixel \<open>'px\<close> (empty while nothing has been written). The
  pointer \<open>fGenerationCounter\<close> refers to the counter of the atlas, which all its Plots
  share: the counter is passed to, and returned by, the operation that uses it.
\<close>

record ('r, 'c, 'px) Plot =
  fPageIndex :: "16 word"
  fPlotIndex :: "16 word"
  fGenID :: uint64_t
  fPlotLocator :: PlotLocator
  fData :: "int \<times> int \<Rightarrow> 'px option"
  fWidth :: int32_t
  fHeight :: int32_t
  fX :: int32_t
  fY :: int32_t
  fRectanizer :: 'r
  fOffset :: SkIPoint16
  fColorType :: 'c
  fBytesPerPixel :: uint64_t
  fDirtyRect :: SkIRect

definition Plot_pageIndex :: "('r, 'c, 'px) Plot \<Rightarrow> uint32_t" where
  "Plot_pageIndex plot = ucast (Plot.fPageIndex plot)"

definition Plot_plotIndex :: "('r, 'c, 'px) Plot \<Rightarrow> uint32_t" where
  "Plot_plotIndex plot = ucast (Plot.fPlotIndex plot)"

definition Plot_genID :: "('r, 'c, 'px) Plot \<Rightarrow> uint64_t" where
  "Plot_genID plot = Plot.fGenID plot"

definition Plot_plotLocator :: "('r, 'c, 'px) Plot \<Rightarrow> PlotLocator" where
  "Plot_plotLocator plot = Plot.fPlotLocator plot"

definition SkIRect_MakeEmpty :: SkIRect where
  "SkIRect_MakeEmpty =
     \<lparr>SkIRect.fLeft = 0, SkIRect.fTop = 0, SkIRect.fRight = 0, SkIRect.fBottom = 0\<rparr>"

definition SkIRect_isEmpty :: "SkIRect \<Rightarrow> bool" where
  "SkIRect_isEmpty r \<longleftrightarrow>
     sint (SkIRect.fRight r) \<le> sint (SkIRect.fLeft r) \<or>
     sint (SkIRect.fBottom r) \<le> sint (SkIRect.fTop r)"

definition smin :: "int32_t \<Rightarrow> int32_t \<Rightarrow> int32_t" where
  "smin a b = (if sint a \<le> sint b then a else b)"

definition smax :: "int32_t \<Rightarrow> int32_t \<Rightarrow> int32_t" where
  "smax a b = (if sint a \<le> sint b then b else a)"

text \<open>
  Modelled from the spec: the dirty-rectangle union of a Plot, "extended to cover" a
  placed rectangle. The joining function of \<open>SkIRect\<close> is not in the header: the union
  is the smallest rectangle holding both, an empty rectangle adding nothing.
\<close>

definition SkIRect_join :: "SkIRect \<Rightarrow> SkIRect \<Rightarrow> SkIRect" where
  "SkIRect_join d r =
     (if SkIRect_isEmpty r then d
      else if SkIRect_isEmpty d then r
      else \<lparr>SkIRect.fLeft = smin (SkIRect.fLeft d) (SkIRect.fLeft r),
            SkIRect.fTop = smin (SkIRect.fTop d) (SkIRect.fTop r),
            SkIRect.fRight = smax (SkIRect.fRight d) (SkIRect.fRight r),
            SkIRect.fBottom = smax (SkIRect.fBottom d) (SkIRect.fBottom r)\<rparr>)"

text \<open>
  Modelled from the spec: the body of \<open>Plot::resetRects\<close> is not in the header, which
  only declares it. The spec (4.4): it "discards the packing sub-allocator's state",
  "clears the dirty-rectangle union, asks the Generation Counter for a new value, and
  constructs a new Cell Locator with the same page/cell index but the new generation".
  The reset of the packer is the parameter \<open>reset\<close>; the page and cell index are those of
  the Plot (\<open>pageIndex()\<close>, \<open>plotIndex()\<close>).
\<close>

definition resetRects ::
  "('r \<Rightarrow> 'r) \<Rightarrow> ('r, 'c, 'px) Plot \<Rightarrow> AtlasGenerationCounter \<Rightarrow>
     ('r, 'c, 'px) Plot \<times> AtlasGenerationCounter" where
  "resetRects reset plot counter =
     (case AtlasGenerationCounter_next counter of
        (g, counter') \<Rightarrow>
          (plot\<lparr>Plot.fRectanizer := reset (Plot.fRectanizer plot),
                Plot.fDirtyRect := SkIRect_MakeEmpty,
                Plot.fGenID := g,
                Plot.fPlotLocator := PlotLocator_ctor (Plot_pageIndex plot) (Plot_plotIndex plot) g\<rparr>,
           counter'))"

text \<open>
  Modelled from the spec: the body of \<open>Plot::addSubImage\<close> is not in the header, and
  neither is the packer. The spec (4.4, 6): the packer offers
  \<open>tryPlace(width, height) -> Option<(x,y)>\<close>; \<open>addSubImage\<close> "delegates to the packing
  sub-allocator to find a free placement; on success, copies pixelData into the staging
  buffer at that placement, extends the dirty-rectangle union to cover it, stamps a Region
  Locator with the Cell's current Cell Locator and the placed rectangle, and returns it";
  "if no placement fits, returns failure and leaves all state unchanged". The packer is the
  parameter \<open>tryPlace\<close>, which gives its state after a placement together with the
  position; the pixel data \<open>image\<close> is the parameter \<open>pixels\<close>. The result is the returned flag, the Plot and the locator behind the pointer
  \<open>atlasLocator\<close> after the call. The rectangle of the locator is in the coordinates of the
  page: the placement moved by \<open>fOffset\<close>.
\<close>

definition copy_pixels ::
  "(int \<times> int \<Rightarrow> 'px option) \<Rightarrow> SkIPoint16 \<Rightarrow> int32_t \<Rightarrow> int32_t \<Rightarrow> (int \<times> int \<Rightarrow> 'px) \<Rightarrow>
     (int \<times> int \<Rightarrow> 'px option)" where
  "copy_pixels buf pos width height pixels =
     (\<lambda>(x, y).
        if sint (SkIPoint16.fX pos) \<le> x \<and> x < sint (SkIPoint16.fX pos) + sint width \<and>
           sint (SkIPoint16.fY pos) \<le> y \<and> y < sint (SkIPoint16.fY pos) + sint height
        then Some (pixels (x - sint (SkIPoint16.fX pos), y - sint (SkIPoint16.fY pos)))
        else buf (x, y))"

definition addSubImage ::
  "('r \<Rightarrow> int32_t \<Rightarrow> int32_t \<Rightarrow> ('r \<times> SkIPoint16) option) \<Rightarrow> ('r, 'c, 'px) Plot \<Rightarrow>
     int32_t \<Rightarrow> int32_t \<Rightarrow> (int \<times> int \<Rightarrow> 'px) \<Rightarrow> AtlasLocator \<Rightarrow>
     bool \<times> ('r, 'c, 'px) Plot \<times> AtlasLocator" where
  "addSubImage tryPlace plot width height pixels atlasLocator =
     (case tryPlace (Plot.fRectanizer plot) width height of
        None \<Rightarrow> (False, plot, atlasLocator)
      | Some (rectanizer', pos) \<Rightarrow>
          (let rect = MakeXYWH (SkIPoint16.fX pos) (SkIPoint16.fY pos) (ucast width) (ucast height);
               dirty = \<lparr>SkIRect.fLeft = scast (IRect16.fLeft rect),
                        SkIRect.fTop = scast (IRect16.fTop rect),
                        SkIRect.fRight = scast (IRect16.fRight rect),
                        SkIRect.fBottom = scast (IRect16.fBottom rect)\<rparr>;
               plot' = plot\<lparr>Plot.fRectanizer := rectanizer',
                            Plot.fData := copy_pixels (Plot.fData plot) pos width height pixels,
                            Plot.fDirtyRect := SkIRect_join (Plot.fDirtyRect plot) dirty\<rparr>;
               pageRect = IRect16_offset rect (SkIPoint16.fX (Plot.fOffset plot))
                                               (SkIPoint16.fY (Plot.fOffset plot))
           in (True, plot',
               updateRect (updatePlotLocator atlasLocator (Plot.fPlotLocator plot)) pageRect)))"

text \<open>
  The other Plots of an atlas act on a Plot only through the counter they share with it:
  \<open>draw k\<close> is the counter after \<open>k\<close> calls of \<open>next()\<close> made on their behalf.
\<close>

fun draw :: "nat \<Rightarrow> AtlasGenerationCounter \<Rightarrow> AtlasGenerationCounter" where
  "draw 0 counter = counter"
| "draw (Suc k) counter = draw k (snd (AtlasGenerationCounter_next counter))"

text \<open>
  A run of evictions of one Plot. For each element \<open>k\<close> of the list the other Plots draw
  \<open>k\<close> generations, then the Plot is reset. The result is the list of the locators the
  Plot had before each of the resets, oldest first, the Plot after the run and the
  counter after the run.
\<close>

fun evictions ::
  "('r \<Rightarrow> 'r) \<Rightarrow> nat list \<Rightarrow> ('r, 'c, 'px) Plot \<Rightarrow> AtlasGenerationCounter \<Rightarrow>
     PlotLocator list \<times> ('r, 'c, 'px) Plot \<times> AtlasGenerationCounter" where
  "evictions reset [] plot counter = ([], plot, counter)"
| "evictions reset (k # ks) plot counter =
     (case resetRects reset plot (draw k counter) of
        (plot', counter') \<Rightarrow>
          (case evictions reset ks plot' counter' of
             (retired, plot'', counter'') \<Rightarrow> (Plot_plotLocator plot # retired, plot'', counter'')))"

text \<open>
  The state of a Plot and the counter of its atlas right after the Plot has drawn its
  generation: the locator of the Plot is built from its page index, its plot index and
  its generation, the generation is below \<open>2 ^ 48\<close> (the assertion of the constructor of
  the locator), and the counter is one past it. \<open>resetRects\<close> leaves every Plot in this
  state (lemma \<open>resetRects_drawn\<close>).
\<close>

definition Plot_drawn :: "('r, 'c, 'px) Plot \<Rightarrow> AtlasGenerationCounter \<Rightarrow> bool" where
  "Plot_drawn plot counter \<longleftrightarrow>
     Plot.fPlotLocator plot =
       PlotLocator_ctor (Plot_pageIndex plot) (Plot_plotIndex plot) (Plot.fGenID plot) \<and>
     Plot.fGenID plot < push_bit 48 1 \<and>
     fGeneration counter = Plot.fGenID plot + 1"

subsection \<open>Example data\<close>

text \<open>
  A packer for the examples: it holds one rectangle, placed at the origin, and is full
  afterwards. Its state tells whether the rectangle is taken.
\<close>

definition one_slot_tryPlace :: "bool \<Rightarrow> int32_t \<Rightarrow> int32_t \<Rightarrow> (bool \<times> SkIPoint16) option" where
  "one_slot_tryPlace taken width height =
     (if taken then None else Some (True, \<lparr>SkIPoint16.fX = 0, SkIPoint16.fY = 0\<rparr>))"

text \<open>
  A 64 by 64 Plot for the examples, with the given page index, plot index, generation and
  packer state, and the locator that names them.
\<close>

definition example_plot :: "16 word \<Rightarrow> 16 word \<Rightarrow> uint64_t \<Rightarrow> bool \<Rightarrow> (bool, unit, unit) Plot" where
  "example_plot pageIdx plotIdx generation taken =
     \<lparr>Plot.fPageIndex = pageIdx,
      Plot.fPlotIndex = plotIdx,
      Plot.fGenID = generation,
      Plot.fPlotLocator = PlotLocator_ctor (ucast pageIdx) (ucast plotIdx) generation,
      Plot.fData = Map.empty,
      Plot.fWidth = 64,
      Plot.fHeight = 64,
      Plot.fX = 0,
      Plot.fY = 0,
      Plot.fRectanizer = taken,
      Plot.fOffset = \<lparr>SkIPoint16.fX = 0, SkIPoint16.fY = 0\<rparr>,
      Plot.fColorType = (),
      Plot.fBytesPerPixel = 1,
      Plot.fDirtyRect = SkIRect_MakeEmpty\<rparr>"

text \<open>
  A run for the examples: the Plot of page 1 and plot index 2, which has just drawn the
  generation 5, is reset after two other generations were drawn, and reset again at once.
\<close>

definition example_run :: "PlotLocator list \<times> (bool, unit, unit) Plot \<times> AtlasGenerationCounter" where
  "example_run = evictions id [2, 0] (example_plot 1 2 5 False) \<lparr>fGeneration = 6\<rparr>"

section \<open>Properties\<close>

subsection \<open>MaskFormat\<close>

lemma MaskFormat_to_int_le: "MaskFormat_to_int f < kMaskFormatCount"
  by (cases f) (simp_all add: kMaskFormatCount_def kLast_def)

text \<open>
  C10. \<open>MaskFormatBytesPerPixel\<close> returns exactly 1 for \<open>kA8\<close>, 2 for \<open>kA565\<close> and 4
  for \<open>kARGB\<close>: for every MaskFormat, 2 raised to the integer value of the format.
\<close>

theorem MaskFormatBytesPerPixel_values:
  "MaskFormatBytesPerPixel kA8 = 1 \<and>
   MaskFormatBytesPerPixel kA565 = 2 \<and>
   MaskFormatBytesPerPixel kARGB = 4 \<and>
   sint (MaskFormatBytesPerPixel format) = 2 ^ nat (sint (MaskFormat_to_int format))"
  by (cases format) (simp_all add: MaskFormatBytesPerPixel_def)

subsection \<open>PlotLocator\<close>

lemma PlotLocator_default_eq_ctor: "PlotLocator_default = PlotLocator_ctor 0 0 0"
  by (simp add: PlotLocator_default_def PlotLocator_ctor_def kInvalidGeneration_def)

text \<open>
  C5. \<open>isValid()\<close> returns false exactly when the triple (pageIndex, cellIndex,
  generation) is all-zero. The locator (page = 2, cell = 5, generation = 0) is valid, the
  default-constructed locator (0, 0, 0) is not.
\<close>

theorem isValid_false_iff_all_zero:
  "(\<not> isValid p) =
     (PlotLocator_pageIndex p = 0 \<and> PlotLocator_plotIndex p = 0 \<and> PlotLocator_genID p = 0) \<and>
   isValid (PlotLocator_ctor 2 5 0) \<and>
   \<not> isValid PlotLocator_default"
proof -
  have page: "(PlotLocator_pageIndex p = 0) = (PlotLocator.fPageIndex p = 0)"
    unfolding PlotLocator_pageIndex_def by (simp add: word_uint_eq_iff uint_up_ucast is_up)
  have plot: "(PlotLocator_plotIndex p = 0) = (PlotLocator.fPlotIndex p = 0)"
    unfolding PlotLocator_plotIndex_def by (simp add: word_uint_eq_iff uint_up_ucast is_up)
  have gen: "(PlotLocator_genID p = 0) = (PlotLocator.fGenID p = 0)"
    unfolding PlotLocator_genID_def by (simp add: word_uint_eq_iff uint_up_ucast is_up)
  have "(\<not> isValid p) =
     (PlotLocator_pageIndex p = 0 \<and> PlotLocator_plotIndex p = 0 \<and> PlotLocator_genID p = 0)"
    unfolding page plot gen by (auto simp add: isValid_def)
  moreover have "isValid (PlotLocator_ctor 2 5 0)"
    by (simp add: isValid_def PlotLocator_ctor_def)
  moreover have "\<not> isValid PlotLocator_default"
    by (simp add: isValid_def PlotLocator_default_def kInvalidGeneration_def)
  ultimately show ?thesis by simp
qed

theorem isValid_false_iff_all_zero_witness:
  "isValid (PlotLocator_ctor 1 3 7) \<and>
   PlotLocator_pageIndex (PlotLocator_ctor 1 3 7) = 1 \<and>
   PlotLocator_plotIndex (PlotLocator_ctor 1 3 7) = 3 \<and>
   PlotLocator_genID (PlotLocator_ctor 1 3 7) = 7"
  using isValid_false_iff_all_zero [of "PlotLocator_ctor 1 3 7"]
  by (simp add: PlotLocator_ctor_def PlotLocator_pageIndex_def PlotLocator_plotIndex_def
      PlotLocator_genID_def)

text \<open>
  C9. After \<open>makeInvalid()\<close> a PlotLocator equals the default-constructed one: its page
  index, plot index and generation are 0 and \<open>isValid()\<close> is false.
  \<open>invalidatePlotLocator()\<close> leaves an AtlasLocator with an invalid embedded PlotLocator
  and does not modify the four UV coordinate words.
\<close>

theorem makeInvalid_is_default:
  "makeInvalid p = PlotLocator_default \<and>
   PlotLocator_eq (makeInvalid p) PlotLocator_default \<and>
   PlotLocator_pageIndex (makeInvalid p) = 0 \<and>
   PlotLocator_plotIndex (makeInvalid p) = 0 \<and>
   PlotLocator_genID (makeInvalid p) = 0 \<and>
   \<not> isValid (makeInvalid p) \<and>
   \<not> isValid (plotLocator (invalidatePlotLocator loc)) \<and>
   getUVs (invalidatePlotLocator loc) = getUVs loc"
  by (simp add: makeInvalid_def PlotLocator_default_def kInvalidGeneration_def
      PlotLocator_eq_def PlotLocator_pageIndex_def PlotLocator_plotIndex_def
      PlotLocator_genID_def isValid_def plotLocator_def invalidatePlotLocator_def getUVs_def)

theorem makeInvalid_is_default_witness:
  "isValid (PlotLocator_ctor 2 5 9) \<and>
   makeInvalid (PlotLocator_ctor 2 5 9) = PlotLocator_default \<and>
   \<not> isValid (makeInvalid (PlotLocator_ctor 2 5 9)) \<and>
   \<not> isValid (plotLocator (invalidatePlotLocator
      \<lparr>AtlasLocator.fPlotLocator = PlotLocator_ctor 2 5 9,
       fUVs0 = 0x4003, fUVs1 = 4, fUVs2 = 0x4010, fUVs3 = 20\<rparr>)) \<and>
   getUVs (invalidatePlotLocator
      \<lparr>AtlasLocator.fPlotLocator = PlotLocator_ctor 2 5 9,
       fUVs0 = 0x4003, fUVs1 = 4, fUVs2 = 0x4010, fUVs3 = 20\<rparr>) = [0x4003, 4, 0x4010, 20]"
proof -
  let ?L = "\<lparr>AtlasLocator.fPlotLocator = PlotLocator_ctor 2 5 9,
       fUVs0 = 0x4003, fUVs1 = 4, fUVs2 = 0x4010, fUVs3 = 20\<rparr>"
  have v: "isValid (PlotLocator_ctor 2 5 9)"
    by (simp add: isValid_def PlotLocator_ctor_def)
  have u: "getUVs ?L = [0x4003, 4, 0x4010, 20]"
    by (simp add: getUVs_def)
  from makeInvalid_is_default [of "PlotLocator_ctor 2 5 9" ?L]
  have "makeInvalid (PlotLocator_ctor 2 5 9) = PlotLocator_default"
    and "\<not> isValid (makeInvalid (PlotLocator_ctor 2 5 9))"
    and "\<not> isValid (plotLocator (invalidatePlotLocator ?L))"
    and "getUVs (invalidatePlotLocator ?L) = getUVs ?L"
    by blast+
  with v u show ?thesis by (simp only: simp_thms)
qed

subsection \<open>AtlasGenerationCounter\<close>

text \<open>The \<open>i\<close>-th call returns the starting value plus \<open>i\<close>, modulo \<open>2 ^ 64\<close>.\<close>

lemma next_calls_closed_form:
  "next_calls n c = map (\<lambda>i. fGeneration c + of_nat i) [0..<n]"
proof (induction n arbitrary: c)
  case 0
  show ?case by simp
next
  case (Suc n)
  have "map (\<lambda>i. fGeneration c + of_nat i) [0..<Suc n] =
          fGeneration c # map (\<lambda>i. fGeneration c + of_nat (Suc i)) [0..<n]"
    by (simp add: upt_conv_Cons map_Suc_upt [symmetric] del: upt_Suc)
  also have "\<dots> = fGeneration c # next_calls n (c\<lparr>fGeneration := fGeneration c + 1\<rparr>)"
    by (simp add: Suc.IH add.assoc)
  finally show ?case by (simp add: AtlasGenerationCounter_next_def)
qed

lemma unat_generation_add:
  fixes g :: "64 word"
  assumes "unat g + i < 2 ^ 64"
  shows "unat (g + of_nat i) = unat g + i"
proof -
  have "i < 2 ^ 64" using assms by simp
  then have "unat (of_nat i :: 64 word) = i" by (simp add: unat_of_nat)
  moreover have "unat g + unat (of_nat i :: 64 word) < 2 ^ LENGTH(64)"
    using assms calculation by simp
  ultimately show ?thesis using unat_add_lem [of g "of_nat i"] by simp
qed

text \<open>
  C4, as amended. The claim is about every sequence of \<open>next()\<close> calls, and the counter
  is an unsigned 64-bit integer that wraps: the claim fails at the call that follows the
  value \<open>2 ^ 64 - 1\<close>. Amended: for a counter whose value is not 0 (a new counter holds
  1) and every sequence of calls that does not carry the counter past \<open>2 ^ 64 - 1\<close>
  (for a new counter: at most \<open>2 ^ 64 - 1\<close> calls), each returned value is strictly
  greater than every value returned before, no value is returned twice, and 0 is never
  returned.
\<close>

theorem next_strictly_increasing:
  assumes "fGeneration c \<noteq> 0"
      and "unat (fGeneration c) + n \<le> 2 ^ 64"
  shows "sorted_wrt (<) (next_calls n c) \<and> distinct (next_calls n c) \<and>
         0 \<notin> set (next_calls n c)"
proof -
  let ?f = "\<lambda>i. fGeneration c + of_nat i"
  have u: "unat (?f i) = unat (fGeneration c) + i" if "i < n" for i
    using that assms(2) by (intro unat_generation_add) simp
  have "?f i < ?f j" if "i < j" "j < n" for i j
    using that u [of i] u [of j] by (simp add: word_less_nat_alt)
  then have s: "sorted_wrt (<) (next_calls n c)"
    by (simp add: next_calls_closed_form sorted_wrt_iff_nth_less)
  then have "distinct (next_calls n c)"
    by (simp add: strict_sorted_iff)
  moreover have "?f i \<noteq> 0" if "i < n" for i
  proof
    assume "?f i = 0"
    then have "unat (?f i) = 0" by simp
    then have "unat (fGeneration c) = 0" using u [OF that] by simp
    then show False using assms(1) by (simp add: unat_eq_0)
  qed
  then have "0 \<notin> set (next_calls n c)"
    by (auto simp add: next_calls_closed_form)
  ultimately show ?thesis using s by simp
qed

theorem next_strictly_increasing_witness:
  "fGeneration AtlasGenerationCounter_init \<noteq> 0 \<and>
   unat (fGeneration AtlasGenerationCounter_init) + 3 \<le> 2 ^ 64 \<and>
   next_calls 3 AtlasGenerationCounter_init = [1, 2, 3] \<and>
   sorted_wrt (<) (next_calls 3 AtlasGenerationCounter_init) \<and>
   distinct (next_calls 3 AtlasGenerationCounter_init) \<and>
   0 \<notin> set (next_calls 3 AtlasGenerationCounter_init)"
  using next_strictly_increasing [of AtlasGenerationCounter_init 3]
  by (simp add: AtlasGenerationCounter_init_def AtlasGenerationCounter_next_def numeral_3_eq_3)

text \<open>
  The claim C4 as stated fails: the \<open>2 ^ 64\<close>-th call on a new counter returns the
  reserved value 0.
\<close>

theorem next_returns_zero_counterexample:
  "0 \<in> set (next_calls (2 ^ 64) AtlasGenerationCounter_init)"
proof -
  have "Suc (2 ^ 64 - 1) = (2 ^ 64 :: nat)" by simp
  moreover have "(1 :: 64 word) + of_nat (2 ^ 64 - 1) = of_nat (Suc (2 ^ 64 - 1))"
    by (simp only: of_nat_Suc)
  ultimately have "(1 :: 64 word) + of_nat (2 ^ 64 - 1) = of_nat (2 ^ 64)"
    by (simp only:)
  also have "\<dots> = 0"
    using of_nat_2p [where 'a = 64] by simp
  finally have "fGeneration AtlasGenerationCounter_init + of_nat (2 ^ 64 - 1) = (0 :: 64 word)"
    by (simp only: AtlasGenerationCounter_init_def AtlasGenerationCounter.simps)
  moreover have "(2 ^ 64 - 1 :: nat) \<in> set [0..<2 ^ 64]" by simp
  ultimately show ?thesis
    unfolding next_calls_closed_form set_map by (metis (no_types, lifting) image_eqI)
qed

subsection \<open>Words: promotion, narrowing, page bits\<close>

lemma mod_2p32_2p16: "(x::int) mod 4294967296 mod 65536 = x mod 65536"
  by (rule mod_mod_cancel) simp

lemma narrow_add: "(ucast ((ucast (u::16 word) :: 32 word) + p) :: 16 word) = u + ucast p"
  apply transfer
  apply (simp add: take_bit_eq_mod mod_2p32_2p16 mod_simps)
  apply (metis mod_2p32_2p16 mod_add_right_eq)
  done

lemma narrow_diff: "(ucast ((ucast (u::16 word) :: 32 word) - p) :: 16 word) = u - ucast p"
  apply transfer
  apply (simp add: take_bit_eq_mod mod_2p32_2p16 mod_simps)
  apply (metis mod_2p32_2p16 mod_diff_right_eq)
  done

lemma narrow_diff_ucast:
  "(ucast ((ucast (a::16 word) :: 32 word) - ucast (b :: 16 word)) :: 16 word) = a - b"
  by (simp add: narrow_diff ucast_down_ucast_id is_down)

lemma narrow_and_or_scast:
  "(ucast (((ucast (u::16 word) :: 32 word) AND m) OR scast (l :: 16 word)) :: 16 word) = (u AND ucast m) OR l"
  by (rule bit_word_eqI) (auto simp add: bit_simps)

lemma narrow_and_or_ucast:
  "(ucast (((ucast (u::16 word) :: 32 word) AND m) OR ucast (l :: 16 word)) :: 16 word) = (u AND ucast m) OR l"
  by (rule bit_word_eqI) (auto simp add: bit_simps)

lemma uint16_bounds: "0 \<le> uint (w::16 word)" "uint w < 65536"
  using uint_lt2p [of w] by simp_all

lemma uint32_bounds: "0 \<le> uint (w::32 word)" "uint w < 4294967296"
  using uint_lt2p [of w] by simp_all

lemma uint_sint_nonneg: 
  assumes "0 \<le> sint (w::16 word)" shows "uint w = sint w"
proof -
  have "sint w = uint w - 65536 * of_bool (bit (uint w) 15)"
    using uint16_bounds [of w]
    by (simp add: sint_uint signed_take_bit_eq_take_bit_minus take_bit_eq_mod)
  then show ?thesis using assms uint16_bounds [of w] by (cases "bit (uint w) 15") simp_all
qed

lemma sint_ucast_16_32: "sint (ucast (w :: 16 word) :: 32 word) = uint w"
proof -
  have "- (2 ^ 31) \<le> uint w"
    by (rule order_trans [OF _ uint_nonnegative]) simp
  moreover have "uint w < 2 ^ 31"
    using uint16_bounds [of w] by simp
  ultimately have "signed_take_bit 31 (uint w) = uint w"
    by (rule signed_take_bit_int_eq_self)
  then show ?thesis by (simp add: signed_ucast_eq)
qed

lemma uint_ucast_32_16:
  assumes "0 \<le> sint (p :: 32 word)" "sint p < 65536"
  shows "uint (ucast p :: 16 word) = sint p"
proof -
  have "sint p = uint p - 4294967296 * of_bool (bit (uint p) 31)"
    using uint32_bounds [of p]
    by (simp add: sint_uint signed_take_bit_eq_take_bit_minus take_bit_eq_mod)
  then have "uint p = sint p" using assms uint32_bounds [of p] by (cases "bit (uint p) 31") simp_all
  then show ?thesis using assms by (simp add: unsigned_ucast_eq take_bit_eq_mod)
qed

text \<open>Bits 13 to 15 (\<open>0xE000\<close>) and bits 0 to 12 (\<open>0x1FFF\<close>) of a 16-bit word.\<close>

lemma lo_mask: "(0x1FFF :: 16 word) = mask 13"
  by (simp add: mask_eq_exp_minus_1)

lemma hi_mask: "(0xE000 :: 16 word) = NOT (mask 13)"
  by (simp add: mask_eq_exp_minus_1)

lemma small_and: 
  assumes "uint (l :: 16 word) < 8192" shows "l AND 0xE000 = 0"
proof -
  have "l AND mask 13 = l" using assms by (simp add: mask_eq_iff)
  then have "l AND 0xE000 = (l AND mask 13) AND NOT (mask 13)" by (simp add: hi_mask)
  also have "\<dots> = 0" by (simp add: and.assoc)
  finally show ?thesis .
qed

lemma uint_lo_lt: "uint ((w :: 16 word) AND 0x1FFF) < 8192"
  unfolding lo_mask using and_mask_lt_2p [of w 13] by simp

lemma or_is_add: "(l::16 word) AND 0xE000 = 0 \<Longrightarrow> (a AND 0xE000) OR l = (a AND 0xE000) + l"
  by (rule disjunctive_add_eq_or [symmetric]) (simp add: and.assoc and.left_commute and.commute)

lemma hi_of_or: "(l::16 word) AND 0xE000 = 0 \<Longrightarrow> ((a AND 0xE000) OR l) AND 0xE000 = a AND 0xE000"
  by (simp add: bit.conj_disj_distrib2 and.assoc)

lemma lo_of_or: "(l::16 word) AND 0xE000 = 0 \<Longrightarrow> ((a AND 0xE000) OR l) AND 0x1FFF = l"
  unfolding lo_mask hi_mask
  by (rule bit_word_eqI) (auto simp add: bit_simps bit_eq_iff)

lemma split_w: "((w::16 word) AND 0xE000) + (w AND 0x1FFF) = w"
proof -
  have "(w AND NOT (mask 13)) AND (w AND mask 13) = 0"
    by (simp add: bit_eq_iff bit_simps)
  then have "(w AND NOT (mask 13)) + (w AND mask 13) = (w AND NOT (mask 13)) OR (w AND mask 13)"
    by (rule disjunctive_add_eq_or)
  also have "\<dots> = w"
    by (auto simp add: bit_eq_iff bit_simps)
  finally show ?thesis by (simp add: lo_mask hi_mask)
qed

lemma hi_of_add: "uint (l::16 word) < 8192 \<Longrightarrow> ((a AND 0xE000) + l) AND 0xE000 = a AND 0xE000"
  using or_is_add [of l a] hi_of_or [of l a] small_and [of l] by simp

lemma lo_of_add: "uint (l::16 word) < 8192 \<Longrightarrow> ((a AND 0xE000) + l) AND 0x1FFF = l"
  using or_is_add [of l a] lo_of_or [of l a] small_and [of l] by simp

lemma ucast_minus_1: "(ucast (- 1 :: 32 word) :: 16 word) = - 1"
  by (rule bit_word_eqI) (simp add: bit_simps)

subsection \<open>AtlasLocator\<close>

text \<open>The operations, with the promotions to \<open>int\<close> eliminated.\<close>

lemma AtlasLocator_width_eq: "AtlasLocator_width loc = fUVs2 loc - fUVs0 loc"
  by (simp add: AtlasLocator_width_def narrow_diff_ucast)

lemma AtlasLocator_height_eq: "AtlasLocator_height loc = fUVs3 loc - fUVs1 loc"
  by (simp add: AtlasLocator_height_def narrow_diff_ucast)

lemma updateRect_fields:
  "fUVs0 (updateRect loc rect) = (fUVs0 loc AND 0xE000) OR IRect16.fLeft rect"
  "fUVs1 (updateRect loc rect) = IRect16.fTop rect"
  "fUVs2 (updateRect loc rect) = (fUVs2 loc AND 0xE000) OR IRect16.fRight rect"
  "fUVs3 (updateRect loc rect) = IRect16.fBottom rect"
  "AtlasLocator.fPlotLocator (updateRect loc rect) = AtlasLocator.fPlotLocator loc"
  by (simp_all add: updateRect_def narrow_and_or_scast)

lemma insetSrc_fields:
  "fUVs0 (insetSrc loc padding) = fUVs0 loc + ucast padding"
  "fUVs1 (insetSrc loc padding) = fUVs1 loc + ucast padding"
  "fUVs2 (insetSrc loc padding) = fUVs2 loc - ucast padding"
  "fUVs3 (insetSrc loc padding) = fUVs3 loc - ucast padding"
  "AtlasLocator.fPlotLocator (insetSrc loc padding) = AtlasLocator.fPlotLocator loc"
  by (simp_all add: insetSrc_def narrow_add narrow_diff)

lemma updatePlotLocator_fields:
  "fUVs0 (updatePlotLocator loc p) =
     (fUVs0 loc AND 0x1FFF) OR ucast (push_bit 13 (PlotLocator_pageIndex p))"
  "fUVs1 (updatePlotLocator loc p) = fUVs1 loc"
  "fUVs2 (updatePlotLocator loc p) =
     (fUVs2 loc AND 0x1FFF) OR ucast (push_bit 13 (PlotLocator_pageIndex p))"
  "fUVs3 (updatePlotLocator loc p) = fUVs3 loc"
  "AtlasLocator.fPlotLocator (updatePlotLocator loc p) = p"
  by (simp_all add: updatePlotLocator_def Let_def narrow_and_or_ucast)

lemma topLeft_fields:
  "sint (SkIPoint.fX (topLeft loc)) = uint (fUVs0 loc AND 0x1FFF)"
  "sint (SkIPoint.fY (topLeft loc)) = uint (fUVs1 loc)"
proof -
  have "(ucast (fUVs0 loc) AND 0x1FFF :: 32 word) = ucast (fUVs0 loc AND 0x1FFF)"
    by (rule bit_word_eqI) (auto simp add: bit_simps dest: bit_imp_le_length)
  then show "sint (SkIPoint.fX (topLeft loc)) = uint (fUVs0 loc AND 0x1FFF)"
    by (simp add: topLeft_def sint_ucast_16_32)
  show "sint (SkIPoint.fY (topLeft loc)) = uint (fUVs1 loc)"
    by (simp add: topLeft_def sint_ucast_16_32)
qed

lemma page_stamp:
  fixes u :: "16 word" and pg :: "32 word"
  shows "((u AND 0x1FFF) OR ucast (push_bit 13 pg)) AND 0xE000 = ucast (push_bit 13 pg)"
    and "((u AND 0x1FFF) OR ucast (push_bit 13 pg)) AND 0x1FFF = u AND 0x1FFF"
  unfolding lo_mask hi_mask
  by (rule bit_word_eqI; auto simp add: bit_simps)+

lemma page_stamp_drop:
  fixes u :: "16 word" and pg :: "32 word"
  assumes "pg \<le> 3"
  shows "drop_bit 13 ((u AND 0x1FFF) OR ucast (push_bit 13 pg)) = ucast pg"
proof -
  have "pg < 2 ^ 2" using assms by (simp add: word_le_def word_less_def)
  then have "pg AND mask 2 = pg" by (rule less_mask_eq)
  then have "take_bit 2 pg = pg" by (simp add: take_bit_eq_mask)
  then have small: "n < 2" if "bit pg n" for n
    using that by (metis bit_take_bit_iff)
  show ?thesis
    unfolding lo_mask
    by (rule bit_word_eqI) (auto simp add: bit_simps dest: small)
qed

lemma updateRect_in_range:
  assumes "0 \<le> sint (IRect16.fLeft rect)"
      and "sint (IRect16.fLeft rect) \<le> sint (IRect16.fRight rect)"
      and "sint (IRect16.fRight rect) \<le> 8191"
  shows "fUVs0 (updateRect loc rect) = (fUVs0 loc AND 0xE000) + IRect16.fLeft rect"
    and "fUVs2 (updateRect loc rect) = (fUVs2 loc AND 0xE000) + IRect16.fRight rect"
    and "fUVs0 (updateRect loc rect) AND 0xE000 = fUVs0 loc AND 0xE000"
    and "fUVs2 (updateRect loc rect) AND 0xE000 = fUVs2 loc AND 0xE000"
    and "fUVs0 (updateRect loc rect) AND 0x1FFF = IRect16.fLeft rect"
    and "fUVs2 (updateRect loc rect) AND 0x1FFF = IRect16.fRight rect"
    and "uint (IRect16.fLeft rect) = sint (IRect16.fLeft rect)"
    and "uint (IRect16.fRight rect) = sint (IRect16.fRight rect)"
proof -
  show l: "uint (IRect16.fLeft rect) = sint (IRect16.fLeft rect)"
    using assms by (simp add: uint_sint_nonneg)
  show r: "uint (IRect16.fRight rect) = sint (IRect16.fRight rect)"
    using assms by (simp add: uint_sint_nonneg)
  have sl: "uint (IRect16.fLeft rect) < 8192" and sr: "uint (IRect16.fRight rect) < 8192"
    using assms l r by simp_all
  show "fUVs0 (updateRect loc rect) = (fUVs0 loc AND 0xE000) + IRect16.fLeft rect"
    using sl by (simp add: updateRect_fields or_is_add small_and)
  show "fUVs2 (updateRect loc rect) = (fUVs2 loc AND 0xE000) + IRect16.fRight rect"
    using sr by (simp add: updateRect_fields or_is_add small_and)
  show "fUVs0 (updateRect loc rect) AND 0xE000 = fUVs0 loc AND 0xE000"
    using sl by (simp add: updateRect_fields hi_of_or small_and)
  show "fUVs2 (updateRect loc rect) AND 0xE000 = fUVs2 loc AND 0xE000"
    using sr by (simp add: updateRect_fields hi_of_or small_and)
  show "fUVs0 (updateRect loc rect) AND 0x1FFF = IRect16.fLeft rect"
    using sl by (simp add: updateRect_fields lo_of_or small_and)
  show "fUVs2 (updateRect loc rect) AND 0x1FFF = IRect16.fRight rect"
    using sr by (simp add: updateRect_fields lo_of_or small_and)
qed

lemma uint_diff_le:
  fixes a b :: "16 word"
  assumes "uint a \<le> uint b"
  shows "uint (b - a) = uint b - uint a"
  using assms uint_sub_lem [of a b] by simp

lemma updateRect_width:
  assumes "fUVs0 loc AND 0xE000 = fUVs2 loc AND 0xE000"
      and "0 \<le> sint (IRect16.fLeft rect)"
      and "sint (IRect16.fLeft rect) \<le> sint (IRect16.fRight rect)"
      and "sint (IRect16.fRight rect) \<le> 8191"
  shows "uint (AtlasLocator_width (updateRect loc rect)) =
           sint (IRect16.fRight rect) - sint (IRect16.fLeft rect)"
proof -
  note ur = updateRect_in_range [OF assms(2-4)]
  have "AtlasLocator_width (updateRect loc rect) = IRect16.fRight rect - IRect16.fLeft rect"
    by (simp add: AtlasLocator_width_eq ur(1,2) assms(1))
  moreover have "uint (IRect16.fLeft rect) \<le> uint (IRect16.fRight rect)"
    using assms(3) ur(7,8) by simp
  ultimately show ?thesis
    using ur(7,8) by (simp add: uint_diff_le)
qed

text \<open>
  C6, as amended. The claim takes every rectangle with \<open>left \<le> right \<le> 8191\<close>; the
  fields of \<open>IRect16\<close> are signed, and a negative \<open>left\<close> overwrites the page bits.
  Amended: for every AtlasLocator whose two U words carry the same page bits and every
  rectangle with \<open>0 \<le> left \<le> right \<le> 8191\<close> and \<open>0 \<le> top \<le> bottom\<close>, after
  \<open>updateRect\<close> \<open>topLeft()\<close> is \<open>(left, top)\<close>, \<open>width()\<close> is \<open>right - left\<close>,
  \<open>height()\<close> is \<open>bottom - top\<close>, and the page bits of the U words and \<open>pageIndex()\<close>
  are unchanged.
\<close>

theorem updateRect_overwrites_bounds:
  assumes "fUVs0 loc AND 0xE000 = fUVs2 loc AND 0xE000"
      and "0 \<le> sint (IRect16.fLeft rect)"
      and "sint (IRect16.fLeft rect) \<le> sint (IRect16.fRight rect)"
      and "sint (IRect16.fRight rect) \<le> 8191"
      and "0 \<le> sint (IRect16.fTop rect)"
      and "sint (IRect16.fTop rect) \<le> sint (IRect16.fBottom rect)"
  shows "sint (SkIPoint.fX (topLeft (updateRect loc rect))) = sint (IRect16.fLeft rect) \<and>
         sint (SkIPoint.fY (topLeft (updateRect loc rect))) = sint (IRect16.fTop rect) \<and>
         uint (AtlasLocator_width (updateRect loc rect)) =
           sint (IRect16.fRight rect) - sint (IRect16.fLeft rect) \<and>
         uint (AtlasLocator_height (updateRect loc rect)) =
           sint (IRect16.fBottom rect) - sint (IRect16.fTop rect) \<and>
         fUVs0 (updateRect loc rect) AND 0xE000 = fUVs0 loc AND 0xE000 \<and>
         fUVs2 (updateRect loc rect) AND 0xE000 = fUVs2 loc AND 0xE000 \<and>
         AtlasLocator_pageIndex (updateRect loc rect) = AtlasLocator_pageIndex loc"
proof -
  note ur = updateRect_in_range [OF assms(2-4)]
  have t: "uint (IRect16.fTop rect) = sint (IRect16.fTop rect)"
    using assms(5) by (simp add: uint_sint_nonneg)
  have b: "uint (IRect16.fBottom rect) = sint (IRect16.fBottom rect)"
    using assms(5,6) by (simp add: uint_sint_nonneg)
  have "sint (SkIPoint.fX (topLeft (updateRect loc rect))) = sint (IRect16.fLeft rect)"
    by (simp add: topLeft_fields ur(5,7))
  moreover have "sint (SkIPoint.fY (topLeft (updateRect loc rect))) = sint (IRect16.fTop rect)"
    by (simp add: topLeft_fields updateRect_fields t)
  moreover have "uint (AtlasLocator_height (updateRect loc rect)) =
           sint (IRect16.fBottom rect) - sint (IRect16.fTop rect)"
    using assms(6) t b by (simp add: AtlasLocator_height_eq updateRect_fields uint_diff_le)
  moreover have "AtlasLocator_pageIndex (updateRect loc rect) = AtlasLocator_pageIndex loc"
    by (simp add: AtlasLocator_pageIndex_def updateRect_fields)
  ultimately show ?thesis
    using updateRect_width [OF assms(1-4)] ur(3,4) by simp
qed

theorem updateRect_overwrites_bounds_witness:
  "sint (SkIPoint.fX (topLeft (updateRect (updatePlotLocator AtlasLocator_init (PlotLocator_ctor 2 5 9))
      \<lparr>IRect16.fLeft = 3, IRect16.fTop = 4, IRect16.fRight = 16, IRect16.fBottom = 20\<rparr>))) = 3 \<and>
   sint (SkIPoint.fY (topLeft (updateRect (updatePlotLocator AtlasLocator_init (PlotLocator_ctor 2 5 9))
      \<lparr>IRect16.fLeft = 3, IRect16.fTop = 4, IRect16.fRight = 16, IRect16.fBottom = 20\<rparr>))) = 4 \<and>
   uint (AtlasLocator_width (updateRect (updatePlotLocator AtlasLocator_init (PlotLocator_ctor 2 5 9))
      \<lparr>IRect16.fLeft = 3, IRect16.fTop = 4, IRect16.fRight = 16, IRect16.fBottom = 20\<rparr>)) = 13 \<and>
   uint (AtlasLocator_height (updateRect (updatePlotLocator AtlasLocator_init (PlotLocator_ctor 2 5 9))
      \<lparr>IRect16.fLeft = 3, IRect16.fTop = 4, IRect16.fRight = 16, IRect16.fBottom = 20\<rparr>)) = 16 \<and>
   fUVs0 (updateRect (updatePlotLocator AtlasLocator_init (PlotLocator_ctor 2 5 9))
      \<lparr>IRect16.fLeft = 3, IRect16.fTop = 4, IRect16.fRight = 16, IRect16.fBottom = 20\<rparr>) AND 0xE000 = 0x4000 \<and>
   AtlasLocator_pageIndex (updateRect (updatePlotLocator AtlasLocator_init (PlotLocator_ctor 2 5 9))
      \<lparr>IRect16.fLeft = 3, IRect16.fTop = 4, IRect16.fRight = 16, IRect16.fBottom = 20\<rparr>) = 2"
proof -
  let ?L = "updatePlotLocator AtlasLocator_init (PlotLocator_ctor 2 5 9)"
  let ?R = "\<lparr>IRect16.fLeft = 3, IRect16.fTop = 4, IRect16.fRight = 16, IRect16.fBottom = 20\<rparr>"
  have pg: "fUVs0 ?L AND 0xE000 = 0x4000" "fUVs2 ?L AND 0xE000 = 0x4000"
    "AtlasLocator_pageIndex ?L = 2"
    by (simp_all add: updatePlotLocator_fields AtlasLocator_init_def PlotLocator_ctor_def
        PlotLocator_pageIndex_def AtlasLocator_pageIndex_def)
  have "fUVs0 ?L AND 0xE000 = fUVs2 ?L AND 0xE000" using pg by simp
  from updateRect_overwrites_bounds [of ?L ?R, OF this] pg show ?thesis by simp
qed

text \<open>
  The claim C6 as stated fails: the rectangle (-1, 0, 0, 0) meets the two assertions, and
  on a locator of page 2 \<open>updateRect\<close> turns the page bits of \<open>fUVs[0]\<close> from
  \<open>0x4000\<close> into \<open>0xE000\<close>; \<open>topLeft()\<close> then has x = 8191, not -1.
\<close>

theorem updateRect_negative_left_counterexample:
  "updateRect_asserts
      \<lparr>IRect16.fLeft = - 1, IRect16.fTop = 0, IRect16.fRight = 0, IRect16.fBottom = 0\<rparr> \<and>
   fUVs0 (updatePlotLocator AtlasLocator_init (PlotLocator_ctor 2 0 1)) AND 0xE000 = 0x4000 \<and>
   fUVs0 (updateRect (updatePlotLocator AtlasLocator_init (PlotLocator_ctor 2 0 1))
      \<lparr>IRect16.fLeft = - 1, IRect16.fTop = 0, IRect16.fRight = 0, IRect16.fBottom = 0\<rparr>)
     AND 0xE000 = 0xE000 \<and>
   sint (SkIPoint.fX (topLeft (updateRect (updatePlotLocator AtlasLocator_init (PlotLocator_ctor 2 0 1))
      \<lparr>IRect16.fLeft = - 1, IRect16.fTop = 0, IRect16.fRight = 0, IRect16.fBottom = 0\<rparr>))) = 8191 \<and>
   sint (IRect16.fLeft
      \<lparr>IRect16.fLeft = - 1, IRect16.fTop = 0, IRect16.fRight = 0, IRect16.fBottom = 0 :: int16_t\<rparr>) = - 1"
  by (simp add: PlotLocator_ctor_def PlotLocator_pageIndex_def AtlasLocator_init_def
      updateRect_asserts_def topLeft_fields updateRect_fields updatePlotLocator_fields)

text \<open>
  C2, as amended. The claim takes rectangles with \<open>left \<le> right \<le> 8191\<close>; with a
  negative \<open>left\<close> the page bits do not cancel. Amended: for every AtlasLocator produced
  by \<open>updatePlotLocator\<close> with a page index in 0..3 followed by \<open>updateRect\<close> with
  \<open>0 \<le> left \<le> right \<le> 8191\<close>, \<open>width()\<close> is the 16-bit difference of the raw right
  and left words and equals \<open>right - left\<close>.
\<close>

theorem width_page_bits_cancel:
  assumes "PlotLocator_pageIndex p \<le> 3"
      and "0 \<le> sint (IRect16.fLeft rect)"
      and "sint (IRect16.fLeft rect) \<le> sint (IRect16.fRight rect)"
      and "sint (IRect16.fRight rect) \<le> 8191"
  shows "AtlasLocator_width (updateRect (updatePlotLocator loc p) rect) =
           fUVs2 (updateRect (updatePlotLocator loc p) rect) -
           fUVs0 (updateRect (updatePlotLocator loc p) rect) \<and>
         uint (AtlasLocator_width (updateRect (updatePlotLocator loc p) rect)) =
           sint (IRect16.fRight rect) - sint (IRect16.fLeft rect)"
proof -
  have "fUVs0 (updatePlotLocator loc p) AND 0xE000 = fUVs2 (updatePlotLocator loc p) AND 0xE000"
    by (simp add: updatePlotLocator_fields page_stamp)
  then show ?thesis
    using updateRect_width [OF _ assms(2-4)] by (simp add: AtlasLocator_width_eq)
qed

theorem width_page_bits_cancel_witness:
  "PlotLocator_pageIndex (PlotLocator_ctor 3 5 9) \<le> 3 \<and>
   fUVs0 (updateRect (updatePlotLocator AtlasLocator_init (PlotLocator_ctor 3 5 9))
      \<lparr>IRect16.fLeft = 3, IRect16.fTop = 4, IRect16.fRight = 16, IRect16.fBottom = 20\<rparr>) = 0x6003 \<and>
   fUVs2 (updateRect (updatePlotLocator AtlasLocator_init (PlotLocator_ctor 3 5 9))
      \<lparr>IRect16.fLeft = 3, IRect16.fTop = 4, IRect16.fRight = 16, IRect16.fBottom = 20\<rparr>) = 0x6010 \<and>
   uint (AtlasLocator_width (updateRect (updatePlotLocator AtlasLocator_init (PlotLocator_ctor 3 5 9))
      \<lparr>IRect16.fLeft = 3, IRect16.fTop = 4, IRect16.fRight = 16, IRect16.fBottom = 20\<rparr>)) = 13"
proof -
  have pg: "PlotLocator_pageIndex (PlotLocator_ctor 3 5 9) \<le> 3"
    by (simp add: PlotLocator_ctor_def PlotLocator_pageIndex_def)
  from width_page_bits_cancel [of "PlotLocator_ctor 3 5 9"
      "\<lparr>IRect16.fLeft = 3, IRect16.fTop = 4, IRect16.fRight = 16, IRect16.fBottom = 20\<rparr>"
      AtlasLocator_init, OF pg]
  show ?thesis
    using pg
    by (simp add: updateRect_fields updatePlotLocator_fields AtlasLocator_init_def
        PlotLocator_ctor_def PlotLocator_pageIndex_def)
qed

text \<open>
  The claim C2 as stated fails: with page index 1 and the rectangle (-1, 0, 0, 0), for
  which \<open>left \<le> right \<le> 8191\<close>, \<open>width()\<close> is 8193 and \<open>right - left\<close> is 1.
\<close>

theorem width_negative_left_counterexample:
  "PlotLocator_pageIndex (PlotLocator_ctor 1 0 1) \<le> 3 \<and>
   sint (IRect16.fLeft
      \<lparr>IRect16.fLeft = - 1, IRect16.fTop = 0, IRect16.fRight = 0, IRect16.fBottom = 0 :: int16_t\<rparr>)
     \<le> sint (IRect16.fRight
      \<lparr>IRect16.fLeft = - 1, IRect16.fTop = 0, IRect16.fRight = 0, IRect16.fBottom = 0 :: int16_t\<rparr>) \<and>
   sint (IRect16.fRight
      \<lparr>IRect16.fLeft = - 1, IRect16.fTop = 0, IRect16.fRight = 0, IRect16.fBottom = 0 :: int16_t\<rparr>)
     \<le> 8191 \<and>
   uint (AtlasLocator_width (updateRect (updatePlotLocator AtlasLocator_init (PlotLocator_ctor 1 0 1))
      \<lparr>IRect16.fLeft = - 1, IRect16.fTop = 0, IRect16.fRight = 0, IRect16.fBottom = 0\<rparr>)) = 8193 \<and>
   sint (IRect16.fRight
      \<lparr>IRect16.fLeft = - 1, IRect16.fTop = 0, IRect16.fRight = 0, IRect16.fBottom = 0 :: int16_t\<rparr>)
     - sint (IRect16.fLeft
      \<lparr>IRect16.fLeft = - 1, IRect16.fTop = 0, IRect16.fRight = 0, IRect16.fBottom = 0 :: int16_t\<rparr>) = 1"
  by (simp add: PlotLocator_ctor_def PlotLocator_pageIndex_def AtlasLocator_init_def
      AtlasLocator_width_eq updateRect_fields updatePlotLocator_fields)

lemma uint_sum_lt:
  fixes a b :: "16 word"
  assumes "uint a + uint b < 65536"
  shows "uint (a + b) = uint a + uint b"
  using assms uint_add_lem [of a b] by simp

lemma inset_words:
  fixes u0 u2 q :: "16 word"
  assumes pg: "u0 AND 0xE000 = u2 AND 0xE000"
      and le: "u0 AND 0x1FFF \<le> u2 AND 0x1FFF"
      and q: "2 * uint q \<le> uint (u2 - u0)"
  shows "(u0 + q) AND 0xE000 = u0 AND 0xE000"
    and "(u2 - q) AND 0xE000 = u2 AND 0xE000"
    and "uint ((u0 + q) AND 0x1FFF) = uint (u0 AND 0x1FFF) + uint q"
    and "uint ((u2 - q) - (u0 + q)) = uint (u2 - u0) - 2 * uint q"
    and "(u0 + q) AND 0x1FFF \<le> (u2 - q) AND 0x1FFF"
proof -
  define l r where "l = u0 AND 0x1FFF" and "r = u2 AND 0x1FFF"
  have u0: "u0 = (u0 AND 0xE000) + l"
    unfolding l_def by (simp add: split_w)
  have u2: "u2 = (u0 AND 0xE000) + r"
    unfolding l_def r_def pg by (simp add: split_w)
  have lr: "uint l \<le> uint r" using le by (simp add: l_def r_def word_le_def)
  have rb: "uint r < 8192" and lb: "uint l < 8192"
    by (simp_all add: l_def r_def uint_lo_lt)
  have "u2 - u0 = r - l" by (subst u2, subst (2) u0) simp
  then have w: "uint (u2 - u0) = uint r - uint l" using lr by (simp add: uint_diff_le)
  have q0: "0 \<le> uint q" by simp
  have ql: "uint l + uint q \<le> uint r - uint q" using q w by simp
  have lq: "uint (l + q) = uint l + uint q"
    using ql rb q0 by (intro uint_sum_lt) linarith
  have rq: "uint (r - q) = uint r - uint q"
    using ql lb q0 uint_nonnegative [of l] by (intro uint_diff_le) linarith
  have lqb: "uint (l + q) < 8192" using lq ql rb q0 by linarith
  have rqb: "uint (r - q) < 8192" using rq rb q0 by linarith
  have a0: "u0 + q = (u0 AND 0xE000) + (l + q)" by (subst u0) simp
  have a2: "u2 - q = (u0 AND 0xE000) + (r - q)" by (subst u2) simp
  show "(u0 + q) AND 0xE000 = u0 AND 0xE000"
    by (subst a0) (simp add: hi_of_add lqb)
  show "(u2 - q) AND 0xE000 = u2 AND 0xE000"
    by (subst a2) (simp add: hi_of_add rqb pg [symmetric])
  have lo0: "(u0 + q) AND 0x1FFF = l + q"
    by (subst a0) (simp add: lo_of_add lqb)
  have lo2: "(u2 - q) AND 0x1FFF = r - q"
    by (subst a2) (simp add: lo_of_add rqb)
  show "uint ((u0 + q) AND 0x1FFF) = uint (u0 AND 0x1FFF) + uint q"
    using lo0 lq by (simp add: l_def)
  show "(u0 + q) AND 0x1FFF \<le> (u2 - q) AND 0x1FFF"
    using lo0 lo2 lq rq ql by (simp add: word_le_def)
  have "(u2 - q) - (u0 + q) = (r - q) - (l + q)"
    by (subst a2, subst a0) simp
  moreover have "uint ((r - q) - (l + q)) = uint (r - q) - uint (l + q)"
    using lq rq ql by (intro uint_diff_le) simp
  ultimately show "uint ((u2 - q) - (u0 + q)) = uint (u2 - u0) - 2 * uint q"
    using lq rq w by simp
qed

lemma inset_words_v:
  fixes u1 u3 q :: "16 word"
  assumes le: "u1 \<le> u3"
      and q: "2 * uint q \<le> uint (u3 - u1)"
  shows "uint (u1 + q) = uint u1 + uint q"
    and "uint ((u3 - q) - (u1 + q)) = uint (u3 - u1) - 2 * uint q"
proof -
  have lr: "uint u1 \<le> uint u3" using le by (simp add: word_le_def)
  then have w: "uint (u3 - u1) = uint u3 - uint u1" by (simp add: uint_diff_le)
  have q0: "0 \<le> uint q" by simp
  have ql: "uint u1 + uint q \<le> uint u3 - uint q" using q w by simp
  have b3: "uint u3 < 65536" by (rule uint16_bounds)
  show lq: "uint (u1 + q) = uint u1 + uint q"
    using ql b3 q0 by (intro uint_sum_lt) linarith
  have rq: "uint (u3 - q) = uint u3 - uint q"
    using ql q0 uint_nonnegative [of u1] by (intro uint_diff_le) linarith
  have "(u3 - q) - (u1 + q) = (u3 - q) - (u1 + q)" ..
  moreover have "uint ((u3 - q) - (u1 + q)) = uint (u3 - q) - uint (u1 + q)"
    using lq rq ql by (intro uint_diff_le) simp
  ultimately show "uint ((u3 - q) - (u1 + q)) = uint (u3 - u1) - 2 * uint q"
    using lq rq w by simp
qed

lemma padding_ucast:
  assumes "0 \<le> sint padding" and "insetSrc_asserts loc padding"
  shows "uint (ucast padding :: 16 word) = sint padding"
proof -
  have "2 * sint padding \<le> uint (AtlasLocator_width loc)"
    using assms(2) by (simp add: insetSrc_asserts_def)
  moreover have "uint (AtlasLocator_width loc) < 65536" by (rule uint16_bounds)
  ultimately have "sint padding < 65536" using assms(1) by linarith
  with assms(1) show ?thesis by (rule uint_ucast_32_16)
qed

text \<open>
  C7, as amended. The claim takes every padding with \<open>2 * padding \<le> width()\<close> and
  \<open>2 * padding \<le> height()\<close>; a negative padding satisfies both and grows the rectangle
  into the page bits. Amended: for every AtlasLocator holding an in-range rectangle (the
  two U words carry the same page bits, \<open>left \<le> right\<close> in their low 13 bits,
  \<open>top \<le> bottom\<close>) and every padding with \<open>0 \<le> padding\<close>, \<open>2 * padding \<le> width()\<close>
  and \<open>2 * padding \<le> height()\<close>, after \<open>insetSrc\<close> the width and the height have
  decreased by exactly \<open>2 * padding\<close>, \<open>topLeft()\<close> has moved by
  \<open>(padding, padding)\<close>, and the page bits of the U words are unchanged.
\<close>

theorem insetSrc_shrinks_symmetrically:
  assumes "fUVs0 loc AND 0xE000 = fUVs2 loc AND 0xE000"
      and "fUVs0 loc AND 0x1FFF \<le> fUVs2 loc AND 0x1FFF"
      and "fUVs1 loc \<le> fUVs3 loc"
      and "0 \<le> sint padding"
      and "insetSrc_asserts loc padding"
  shows "uint (AtlasLocator_width (insetSrc loc padding)) =
           uint (AtlasLocator_width loc) - 2 * sint padding \<and>
         uint (AtlasLocator_height (insetSrc loc padding)) =
           uint (AtlasLocator_height loc) - 2 * sint padding \<and>
         sint (SkIPoint.fX (topLeft (insetSrc loc padding))) =
           sint (SkIPoint.fX (topLeft loc)) + sint padding \<and>
         sint (SkIPoint.fY (topLeft (insetSrc loc padding))) =
           sint (SkIPoint.fY (topLeft loc)) + sint padding \<and>
         fUVs0 (insetSrc loc padding) AND 0xE000 = fUVs0 loc AND 0xE000 \<and>
         fUVs2 (insetSrc loc padding) AND 0xE000 = fUVs2 loc AND 0xE000"
proof -
  define q :: "16 word" where "q = ucast padding"
  have uq: "uint q = sint padding"
    unfolding q_def using assms(4,5) by (rule padding_ucast)
  have qw: "2 * uint q \<le> uint (fUVs2 loc - fUVs0 loc)"
    and qh: "2 * uint q \<le> uint (fUVs3 loc - fUVs1 loc)"
    using assms(5) uq
    by (simp_all add: insetSrc_asserts_def AtlasLocator_width_eq AtlasLocator_height_eq)
  note h = inset_words [OF assms(1,2) qw]
  note v = inset_words_v [OF assms(3) qh]
  show ?thesis
    using h(1-4) v uq
    by (simp add: AtlasLocator_width_eq AtlasLocator_height_eq topLeft_fields insetSrc_fields
        q_def [symmetric])
qed

theorem insetSrc_shrinks_symmetrically_witness:
  "insetSrc_asserts (updateRect (updatePlotLocator AtlasLocator_init (PlotLocator_ctor 2 5 9))
      \<lparr>IRect16.fLeft = 3, IRect16.fTop = 4, IRect16.fRight = 16, IRect16.fBottom = 20\<rparr>) 2 \<and>
   uint (AtlasLocator_width (insetSrc (updateRect (updatePlotLocator AtlasLocator_init (PlotLocator_ctor 2 5 9))
      \<lparr>IRect16.fLeft = 3, IRect16.fTop = 4, IRect16.fRight = 16, IRect16.fBottom = 20\<rparr>) 2)) = 9 \<and>
   uint (AtlasLocator_height (insetSrc (updateRect (updatePlotLocator AtlasLocator_init (PlotLocator_ctor 2 5 9))
      \<lparr>IRect16.fLeft = 3, IRect16.fTop = 4, IRect16.fRight = 16, IRect16.fBottom = 20\<rparr>) 2)) = 12 \<and>
   sint (SkIPoint.fX (topLeft (insetSrc (updateRect (updatePlotLocator AtlasLocator_init (PlotLocator_ctor 2 5 9))
      \<lparr>IRect16.fLeft = 3, IRect16.fTop = 4, IRect16.fRight = 16, IRect16.fBottom = 20\<rparr>) 2))) = 5 \<and>
   sint (SkIPoint.fY (topLeft (insetSrc (updateRect (updatePlotLocator AtlasLocator_init (PlotLocator_ctor 2 5 9))
      \<lparr>IRect16.fLeft = 3, IRect16.fTop = 4, IRect16.fRight = 16, IRect16.fBottom = 20\<rparr>) 2))) = 6 \<and>
   fUVs0 (insetSrc (updateRect (updatePlotLocator AtlasLocator_init (PlotLocator_ctor 2 5 9))
      \<lparr>IRect16.fLeft = 3, IRect16.fTop = 4, IRect16.fRight = 16, IRect16.fBottom = 20\<rparr>) 2)
     AND 0xE000 = 0x4000"
proof -
  let ?L = "updateRect (updatePlotLocator AtlasLocator_init (PlotLocator_ctor 2 5 9))
      \<lparr>IRect16.fLeft = 3, IRect16.fTop = 4, IRect16.fRight = 16, IRect16.fBottom = 20\<rparr>"
  have f: "fUVs0 ?L = 0x4003" "fUVs1 ?L = 4" "fUVs2 ?L = 0x4010" "fUVs3 ?L = 20"
    by (simp_all add: updateRect_fields updatePlotLocator_fields AtlasLocator_init_def
        PlotLocator_ctor_def PlotLocator_pageIndex_def)
  have a: "insetSrc_asserts ?L 2"
    by (simp add: insetSrc_asserts_def AtlasLocator_width_eq AtlasLocator_height_eq f)
  have h: "fUVs0 ?L AND 0xE000 = fUVs2 ?L AND 0xE000" "fUVs0 ?L AND 0x1FFF \<le> fUVs2 ?L AND 0x1FFF"
    "fUVs1 ?L \<le> fUVs3 ?L" "0 \<le> sint (2 :: int32_t)"
    by (simp_all add: f)
  from insetSrc_shrinks_symmetrically [OF h a] a show ?thesis
    by (simp add: AtlasLocator_width_eq AtlasLocator_height_eq topLeft_fields f)
qed

text \<open>
  The claim C7 as stated fails: the padding -1 meets both assertions on the rectangle
  (0, 0, 10, 10); \<open>insetSrc\<close> turns the page bits of \<open>fUVs[0]\<close> from 0 into
  \<open>0xE000\<close>, and \<open>topLeft()\<close> moves from x = 0 to x = 8191, not to -1.
\<close>

theorem insetSrc_negative_padding_counterexample:
  "insetSrc_asserts (updateRect AtlasLocator_init
      \<lparr>IRect16.fLeft = 0, IRect16.fTop = 0, IRect16.fRight = 10, IRect16.fBottom = 10\<rparr>) (- 1) \<and>
   fUVs0 (updateRect AtlasLocator_init
      \<lparr>IRect16.fLeft = 0, IRect16.fTop = 0, IRect16.fRight = 10, IRect16.fBottom = 10\<rparr>)
     AND 0xE000 = 0 \<and>
   fUVs0 (insetSrc (updateRect AtlasLocator_init
      \<lparr>IRect16.fLeft = 0, IRect16.fTop = 0, IRect16.fRight = 10, IRect16.fBottom = 10\<rparr>) (- 1))
     AND 0xE000 = 0xE000 \<and>
   sint (SkIPoint.fX (topLeft (updateRect AtlasLocator_init
      \<lparr>IRect16.fLeft = 0, IRect16.fTop = 0, IRect16.fRight = 10, IRect16.fBottom = 10\<rparr>))) = 0 \<and>
   sint (SkIPoint.fX (topLeft (insetSrc (updateRect AtlasLocator_init
      \<lparr>IRect16.fLeft = 0, IRect16.fTop = 0, IRect16.fRight = 10, IRect16.fBottom = 10\<rparr>) (- 1)))) = 8191"
  by (simp add: AtlasLocator_init_def insetSrc_asserts_def AtlasLocator_width_eq
      AtlasLocator_height_eq topLeft_fields updateRect_fields insetSrc_fields ucast_minus_1)

lemma drop_bit_page: "drop_bit 13 (w :: 16 word) = drop_bit 13 (w AND 0xE000)"
  unfolding hi_mask by (rule bit_word_eqI) (auto simp add: bit_simps dest: bit_imp_le_length)

lemma run_rect_ops_page_bits:
  assumes "run_rect_ops loc ops = Some loc'"
      and "fUVs0 loc AND 0xE000 = fUVs2 loc AND 0xE000"
      and "fUVs0 loc AND 0x1FFF \<le> fUVs2 loc AND 0x1FFF"
  shows "fUVs0 loc' AND 0xE000 = fUVs0 loc AND 0xE000 \<and>
         fUVs2 loc' AND 0xE000 = fUVs2 loc AND 0xE000 \<and>
         AtlasLocator.fPlotLocator loc' = AtlasLocator.fPlotLocator loc"
  using assms
proof (induction loc ops rule: run_rect_ops.induct)
  case (1 loc)
  then show ?case by simp
next
  case (2 loc rect ops)
  from "2.prems"(1) have ok: "0 \<le> sint (IRect16.fLeft rect)" "updateRect_asserts rect"
    and run: "run_rect_ops (updateRect loc rect) ops = Some loc'"
    by (simp_all split: if_splits)
  from ok have r: "sint (IRect16.fLeft rect) \<le> sint (IRect16.fRight rect)"
    "sint (IRect16.fRight rect) \<le> 8191"
    by (simp_all add: updateRect_asserts_def)
  note ur = updateRect_in_range [OF ok(1) r]
  have "IRect16.fLeft rect \<le> IRect16.fRight rect"
    using r(1) ur(7,8) by (simp add: word_le_def)
  then have "fUVs0 (updateRect loc rect) AND 0x1FFF \<le> fUVs2 (updateRect loc rect) AND 0x1FFF"
    by (simp add: ur(5,6))
  moreover have "fUVs0 (updateRect loc rect) AND 0xE000 = fUVs2 (updateRect loc rect) AND 0xE000"
    using "2.prems"(2) by (simp add: ur(3,4))
  ultimately have "fUVs0 loc' AND 0xE000 = fUVs0 (updateRect loc rect) AND 0xE000 \<and>
         fUVs2 loc' AND 0xE000 = fUVs2 (updateRect loc rect) AND 0xE000 \<and>
         AtlasLocator.fPlotLocator loc' = AtlasLocator.fPlotLocator (updateRect loc rect)"
    using "2.IH" ok run by simp
  then show ?case by (simp add: ur(3,4) updateRect_fields(5))
next
  case (3 loc padding ops)
  from "3.prems"(1) have ok: "0 \<le> sint padding" "insetSrc_asserts loc padding"
    and run: "run_rect_ops (insetSrc loc padding) ops = Some loc'"
    by (simp_all split: if_splits)
  have "2 * uint (ucast padding :: 16 word) \<le> uint (fUVs2 loc - fUVs0 loc)"
    using ok by (simp add: padding_ucast insetSrc_asserts_def AtlasLocator_width_eq)
  note h = inset_words [OF "3.prems"(2,3) this]
  have "fUVs0 (insetSrc loc padding) AND 0xE000 = fUVs2 (insetSrc loc padding) AND 0xE000"
    using h(1,2) "3.prems"(2) by (simp add: insetSrc_fields)
  moreover have "fUVs0 (insetSrc loc padding) AND 0x1FFF \<le> fUVs2 (insetSrc loc padding) AND 0x1FFF"
    using h(5) by (simp add: insetSrc_fields)
  ultimately have "fUVs0 loc' AND 0xE000 = fUVs0 (insetSrc loc padding) AND 0xE000 \<and>
         fUVs2 loc' AND 0xE000 = fUVs2 (insetSrc loc padding) AND 0xE000 \<and>
         AtlasLocator.fPlotLocator loc' = AtlasLocator.fPlotLocator (insetSrc loc padding)"
    using "3.IH" ok run by simp
  then show ?case using h(1,2) by (simp add: insetSrc_fields)
qed

text \<open>
  C3, as amended. \<open>updatePlotLocator\<close> stamps the page index into \<open>fUVs[0]\<close> and
  \<open>fUVs[2]\<close> only: \<open>fUVs[1]\<close> and \<open>fUVs[3]\<close> carry no page bits. Amended: after
  \<open>updatePlotLocator\<close> with a Cell Locator of page index \<open>P \<le> 3\<close>, on a locator whose
  rectangle has \<open>left \<le> right\<close> in the low 13 bits, the bits from 13 up of \<open>fUVs[0]\<close>
  and of \<open>fUVs[2]\<close> are \<open>P\<close>, and they still are after every run of \<open>updateRect\<close>
  calls with \<open>0 \<le> left \<le> right \<le> 8191\<close> and \<open>insetSrc\<close> calls with
  \<open>0 \<le> padding\<close> that meet their assertions; \<open>pageIndex()\<close> is \<open>P\<close> throughout.
\<close>

theorem page_bits_in_U_fields:
  assumes "updatePlotLocator_asserts p"
      and "fUVs0 loc AND 0x1FFF \<le> fUVs2 loc AND 0x1FFF"
      and "run_rect_ops (updatePlotLocator loc p) ops = Some loc'"
  shows "drop_bit 13 (fUVs0 loc') = ucast (PlotLocator_pageIndex p) \<and>
         drop_bit 13 (fUVs2 loc') = ucast (PlotLocator_pageIndex p) \<and>
         AtlasLocator_pageIndex loc' = PlotLocator_pageIndex p"
proof -
  let ?s = "updatePlotLocator loc p"
  have pg: "PlotLocator_pageIndex p \<le> 3"
    using assms(1) by (simp add: updatePlotLocator_asserts_def)
  have e: "fUVs0 ?s AND 0xE000 = fUVs2 ?s AND 0xE000"
    by (simp add: updatePlotLocator_fields page_stamp)
  have l: "fUVs0 ?s AND 0x1FFF \<le> fUVs2 ?s AND 0x1FFF"
    using assms(2) by (simp add: updatePlotLocator_fields page_stamp)
  note inv = run_rect_ops_page_bits [OF assms(3) e l]
  have s0: "drop_bit 13 (fUVs0 ?s) = ucast (PlotLocator_pageIndex p)"
    unfolding updatePlotLocator_fields using pg by (rule page_stamp_drop)
  have s2: "drop_bit 13 (fUVs2 ?s) = ucast (PlotLocator_pageIndex p)"
    unfolding updatePlotLocator_fields using pg by (rule page_stamp_drop)
  have "drop_bit 13 (fUVs0 loc') = drop_bit 13 (fUVs0 loc' AND 0xE000)"
    by (rule drop_bit_page)
  also have "\<dots> = drop_bit 13 (fUVs0 ?s AND 0xE000)"
    using inv by simp
  also have "\<dots> = drop_bit 13 (fUVs0 ?s)"
    by (rule drop_bit_page [symmetric])
  finally have d0: "drop_bit 13 (fUVs0 loc') = ucast (PlotLocator_pageIndex p)"
    using s0 by (rule trans)
  have "drop_bit 13 (fUVs2 loc') = drop_bit 13 (fUVs2 loc' AND 0xE000)"
    by (rule drop_bit_page)
  also have "\<dots> = drop_bit 13 (fUVs2 ?s AND 0xE000)"
    using inv by simp
  also have "\<dots> = drop_bit 13 (fUVs2 ?s)"
    by (rule drop_bit_page [symmetric])
  finally have d2: "drop_bit 13 (fUVs2 loc') = ucast (PlotLocator_pageIndex p)"
    using s2 by (rule trans)
  have "AtlasLocator_pageIndex loc' = PlotLocator_pageIndex p"
    using inv by (simp add: AtlasLocator_pageIndex_def updatePlotLocator_fields)
  with d0 d2 show ?thesis by simp
qed

theorem page_bits_in_U_fields_witness:
  "run_rect_ops (updatePlotLocator AtlasLocator_init (PlotLocator_ctor 3 5 9))
      [UpdateRect \<lparr>IRect16.fLeft = 3, IRect16.fTop = 4, IRect16.fRight = 16, IRect16.fBottom = 20\<rparr>,
       InsetSrc 2,
       UpdateRect \<lparr>IRect16.fLeft = 0, IRect16.fTop = 0, IRect16.fRight = 8191, IRect16.fBottom = 9\<rparr>]
     \<noteq> None \<and>
   drop_bit 13 (fUVs0 (the (run_rect_ops (updatePlotLocator AtlasLocator_init (PlotLocator_ctor 3 5 9))
      [UpdateRect \<lparr>IRect16.fLeft = 3, IRect16.fTop = 4, IRect16.fRight = 16, IRect16.fBottom = 20\<rparr>,
       InsetSrc 2,
       UpdateRect \<lparr>IRect16.fLeft = 0, IRect16.fTop = 0, IRect16.fRight = 8191, IRect16.fBottom = 9\<rparr>]))) = 3 \<and>
   drop_bit 13 (fUVs2 (the (run_rect_ops (updatePlotLocator AtlasLocator_init (PlotLocator_ctor 3 5 9))
      [UpdateRect \<lparr>IRect16.fLeft = 3, IRect16.fTop = 4, IRect16.fRight = 16, IRect16.fBottom = 20\<rparr>,
       InsetSrc 2,
       UpdateRect \<lparr>IRect16.fLeft = 0, IRect16.fTop = 0, IRect16.fRight = 8191, IRect16.fBottom = 9\<rparr>]))) = 3 \<and>
   AtlasLocator_pageIndex (the (run_rect_ops (updatePlotLocator AtlasLocator_init (PlotLocator_ctor 3 5 9))
      [UpdateRect \<lparr>IRect16.fLeft = 3, IRect16.fTop = 4, IRect16.fRight = 16, IRect16.fBottom = 20\<rparr>,
       InsetSrc 2,
       UpdateRect \<lparr>IRect16.fLeft = 0, IRect16.fTop = 0, IRect16.fRight = 8191, IRect16.fBottom = 9\<rparr>])) = 3"
proof -
  let ?P = "PlotLocator_ctor 3 5 9"
  let ?ops = "[UpdateRect \<lparr>IRect16.fLeft = 3, IRect16.fTop = 4, IRect16.fRight = 16, IRect16.fBottom = 20\<rparr>,
       InsetSrc 2,
       UpdateRect \<lparr>IRect16.fLeft = 0, IRect16.fTop = 0, IRect16.fRight = 8191, IRect16.fBottom = 9\<rparr>]"
  have pg: "PlotLocator_pageIndex ?P = 3"
    by (simp add: PlotLocator_ctor_def PlotLocator_pageIndex_def)
  have a: "updatePlotLocator_asserts ?P"
    by (simp add: updatePlotLocator_asserts_def pg)
  have l: "fUVs0 AtlasLocator_init AND 0x1FFF \<le> fUVs2 AtlasLocator_init AND 0x1FFF"
    by (simp add: AtlasLocator_init_def)
  have r: "run_rect_ops (updatePlotLocator AtlasLocator_init ?P) ?ops \<noteq> None"
    by (simp add: updateRect_asserts_def insetSrc_asserts_def AtlasLocator_width_eq
        AtlasLocator_height_eq updateRect_fields updatePlotLocator_fields AtlasLocator_init_def pg)
  then have "run_rect_ops (updatePlotLocator AtlasLocator_init ?P) ?ops =
      Some (the (run_rect_ops (updatePlotLocator AtlasLocator_init ?P) ?ops))"
    by simp
  from page_bits_in_U_fields [OF a l this] r pg show ?thesis
    by simp
qed

text \<open>
  The claim C3 as stated fails: after \<open>updatePlotLocator\<close> with page index 1 the bits
  from 13 up of \<open>fUVs[0]\<close> are 1, those of \<open>fUVs[1]\<close> and \<open>fUVs[3]\<close> are 0.
\<close>

theorem page_bits_not_in_V_fields_counterexample:
  "PlotLocator_pageIndex (PlotLocator_ctor 1 0 1) = 1 \<and>
   drop_bit 13 (fUVs0 (updatePlotLocator (updateRect AtlasLocator_init
      \<lparr>IRect16.fLeft = 3, IRect16.fTop = 4, IRect16.fRight = 16, IRect16.fBottom = 20\<rparr>)
      (PlotLocator_ctor 1 0 1))) = 1 \<and>
   drop_bit 13 (fUVs1 (updatePlotLocator (updateRect AtlasLocator_init
      \<lparr>IRect16.fLeft = 3, IRect16.fTop = 4, IRect16.fRight = 16, IRect16.fBottom = 20\<rparr>)
      (PlotLocator_ctor 1 0 1))) = 0 \<and>
   drop_bit 13 (fUVs3 (updatePlotLocator (updateRect AtlasLocator_init
      \<lparr>IRect16.fLeft = 3, IRect16.fTop = 4, IRect16.fRight = 16, IRect16.fBottom = 20\<rparr>)
      (PlotLocator_ctor 1 0 1))) = 0"
  by (simp add: PlotLocator_ctor_def PlotLocator_pageIndex_def AtlasLocator_init_def
      updateRect_fields updatePlotLocator_fields drop_bit_eq_div)

subsection \<open>Plot\<close>

lemma ucast_64_48_64:
  assumes "(g :: 64 word) < push_bit 48 1"
  shows "(ucast (ucast g :: 48 word) :: 64 word) = g"
proof -
  have "g < 2 ^ 48" using assms by simp
  then have "g AND mask 48 = g" by (rule less_mask_eq)
  then have "take_bit 48 g = g" by (simp add: take_bit_eq_mask)
  moreover have "(ucast (ucast g :: 48 word) :: 64 word) = take_bit 48 g"
    by (rule bit_word_eqI) (auto simp add: bit_simps)
  ultimately show ?thesis by simp
qed

lemma fGeneration_draw: "fGeneration (draw k c) = fGeneration c + of_nat k"
  by (induction k arbitrary: c) (simp_all add: AtlasGenerationCounter_next_def add.assoc)

lemma PlotLocator_genID_ctor:
  assumes "g < push_bit 48 1"
  shows "PlotLocator_genID (PlotLocator_ctor pageIdx plotIdx g) = g"
  using assms by (simp add: PlotLocator_genID_def PlotLocator_ctor_def ucast_64_48_64)

lemma resetRects_result:
  "Plot_plotLocator (fst (resetRects reset plot c)) =
     PlotLocator_ctor (Plot_pageIndex plot) (Plot_plotIndex plot) (fGeneration c)"
  "Plot.fGenID (fst (resetRects reset plot c)) = fGeneration c"
  "Plot_pageIndex (fst (resetRects reset plot c)) = Plot_pageIndex plot"
  "Plot_plotIndex (fst (resetRects reset plot c)) = Plot_plotIndex plot"
  "fGeneration (snd (resetRects reset plot c)) = fGeneration c + 1"
  by (simp_all add: resetRects_def AtlasGenerationCounter_next_def Plot_plotLocator_def
      Plot_pageIndex_def Plot_plotIndex_def)

lemma resetRects_drawn:
  assumes "fGeneration c < push_bit 48 1"
  shows "Plot_drawn (fst (resetRects reset plot c)) (snd (resetRects reset plot c))"
  using assms resetRects_result [of reset plot c]
  by (simp add: Plot_drawn_def Plot_plotLocator_def)

lemma less_2p48_iff: "(g :: 64 word) < push_bit 48 1 \<longleftrightarrow> unat g < 2 ^ 48"
  by (simp add: word_less_nat_alt)

lemma Plot_drawn_unat:
  assumes "Plot_drawn plot c"
  shows "unat (Plot.fGenID plot) < 2 ^ 48"
    and "unat (fGeneration c) = unat (Plot.fGenID plot) + 1"
    and "unat (PlotLocator_genID (Plot_plotLocator plot)) = unat (Plot.fGenID plot)"
proof -
  have lt: "Plot.fGenID plot < push_bit 48 1"
    and c: "fGeneration c = Plot.fGenID plot + of_nat 1"
    and l: "Plot_plotLocator plot =
       PlotLocator_ctor (Plot_pageIndex plot) (Plot_plotIndex plot) (Plot.fGenID plot)"
    using assms unfolding Plot_drawn_def Plot_plotLocator_def by simp_all
  show u: "unat (Plot.fGenID plot) < 2 ^ 48"
    using lt by (simp only: less_2p48_iff)
  have "unat (Plot.fGenID plot + of_nat 1) = unat (Plot.fGenID plot) + 1"
    using u by (intro unat_generation_add) simp
  then show "unat (fGeneration c) = unat (Plot.fGenID plot) + 1"
    by (simp only: c)
  show "unat (PlotLocator_genID (Plot_plotLocator plot)) = unat (Plot.fGenID plot)"
    unfolding l using lt by (simp only: PlotLocator_genID_ctor)
qed

lemma evictions_invariant:
  assumes "Plot_drawn plot c"
      and "unat (fGeneration c) + sum_list ks + length ks \<le> 2 ^ 48"
  shows "Plot_drawn (fst (snd (evictions reset ks plot c))) (snd (snd (evictions reset ks plot c))) \<and>
         Plot_pageIndex (fst (snd (evictions reset ks plot c))) = Plot_pageIndex plot \<and>
         Plot_plotIndex (fst (snd (evictions reset ks plot c))) = Plot_plotIndex plot \<and>
         unat (fGeneration (snd (snd (evictions reset ks plot c)))) =
           unat (fGeneration c) + sum_list ks + length ks \<and>
         (\<forall>L \<in> set (fst (evictions reset ks plot c)).
            unat (PlotLocator_genID L) < unat (Plot.fGenID (fst (snd (evictions reset ks plot c)))))"
  using assms
proof (induction ks arbitrary: plot c)
  case Nil
  then show ?case by simp
next
  case (Cons k ks)
  let ?d = "draw k c"
  let ?p = "fst (resetRects reset plot ?d)"
  let ?c = "snd (resetRects reset plot ?d)"
  have ud: "unat (fGeneration ?d) = unat (fGeneration c) + k"
    unfolding fGeneration_draw using Cons.prems(2) by (intro unat_generation_add) simp
  then have "unat (fGeneration ?d) < 2 ^ 48"
    using Cons.prems(2) by simp
  then have dlt: "fGeneration ?d < push_bit 48 1"
    by (simp only: less_2p48_iff)
  have drawn: "Plot_drawn ?p ?c"
    using dlt by (rule resetRects_drawn)
  have uc: "unat (fGeneration ?c) = unat (fGeneration c) + k + 1"
  proof -
    have "unat (fGeneration ?d + of_nat 1) = unat (fGeneration ?d) + 1"
      using ud Cons.prems(2) by (intro unat_generation_add) simp
    then show ?thesis using ud by (simp add: resetRects_result)
  qed
  have bound: "unat (fGeneration ?c) + sum_list ks + length ks \<le> 2 ^ 48"
    using uc Cons.prems(2) by simp
  note ih = Cons.IH [OF drawn bound]
  have ev: "evictions reset (k # ks) plot c =
      (Plot_plotLocator plot # fst (evictions reset ks ?p ?c),
       fst (snd (evictions reset ks ?p ?c)), snd (snd (evictions reset ks ?p ?c)))"
    by (simp add: case_prod_unfold)
  note g0 = Plot_drawn_unat(3) [OF Cons.prems(1)]
  have g1: "unat (Plot.fGenID plot) < unat (Plot.fGenID ?p)"
    using Plot_drawn_unat(2) [OF Cons.prems(1)] ud by (simp add: resetRects_result)
  have g2: "unat (Plot.fGenID ?p) \<le> unat (Plot.fGenID (fst (snd (evictions reset ks ?p ?c))))"
  proof -
    let ?q = "fst (snd (evictions reset ks ?p ?c))" and ?e = "snd (snd (evictions reset ks ?p ?c))"
    have "Plot_drawn ?q ?e" using ih by simp
    then have "unat (fGeneration ?e) = unat (Plot.fGenID ?q) + 1"
      by (rule Plot_drawn_unat(2))
    moreover have "unat (fGeneration ?e) = unat (fGeneration ?c) + sum_list ks + length ks"
      using ih by simp
    moreover have "unat (fGeneration ?c) = unat (Plot.fGenID ?p) + 1"
      by (rule Plot_drawn_unat(2) [OF drawn])
    ultimately show ?thesis by simp
  qed
  show ?case
    unfolding ev using ih uc g0 g1 g2 by (auto simp add: resetRects_result)
qed

lemma PlotLocator_index_ctor:
  "PlotLocator_pageIndex (PlotLocator_ctor pageIdx plotIdx g) = ucast (ucast pageIdx :: 8 word)"
  "PlotLocator_plotIndex (PlotLocator_ctor pageIdx plotIdx g) = ucast (ucast plotIdx :: 8 word)"
  by (simp_all add: PlotLocator_pageIndex_def PlotLocator_plotIndex_def PlotLocator_ctor_def)

lemma PlotLocator_eq_genID:
  assumes "PlotLocator_eq a b"
  shows "PlotLocator_genID a = PlotLocator_genID b"
  using assms by (simp add: PlotLocator_eq_def PlotLocator_genID_def)

text \<open>
  C1, as amended. \<open>resetRects\<close> takes the new generation from the Generation Counter of
  the atlas, which all Plots of the atlas share: it is \<open>G + 1\<close> only when no other Plot
  has drawn a generation since this Plot drew \<open>G\<close>. Amended: take a Plot that has just
  drawn its generation, any run of evictions of it between which the other Plots draw
  generations, and the Cell Locator (\<open>P\<close>, \<open>C\<close>, \<open>G\<close>) the Plot has after the run; let
  the other Plots then draw \<open>k\<close> more generations, all generations staying below
  \<open>2 ^ 48\<close>. After one call to \<open>resetRects()\<close> the Plot's Cell Locator has page index
  \<open>P\<close>, cell index \<open>C\<close> and the generation that \<open>next()\<close> returned, which is
  \<open>G + 1 + k\<close>: greater than \<open>G\<close>, and \<open>G + 1\<close> exactly when \<open>k = 0\<close>. The counter
  has advanced by one, and the Plot has again just drawn its generation. The Cell Locator
  from before the call and every Cell Locator the Plot had earlier in the run compare
  unequal to the Cell Locator after the call.
\<close>

theorem resetRects_new_locator:
  fixes reset :: "'r \<Rightarrow> 'r" and plot :: "('r, 'c, 'px) Plot"
    and counter :: AtlasGenerationCounter and ks :: "nat list" and k :: nat
  defines "run \<equiv> evictions reset ks plot counter"
  defines "captured \<equiv> fst run"
  defines "plot1 \<equiv> fst (snd run)"
  defines "counter1 \<equiv> draw k (snd (snd run))"
  defines "plot2 \<equiv> fst (resetRects reset plot1 counter1)"
  defines "counter2 \<equiv> snd (resetRects reset plot1 counter1)"
  assumes drawn: "Plot_drawn plot counter"
      and below: "unat (fGeneration counter) + sum_list ks + length ks + k < 2 ^ 48"
  shows "PlotLocator_pageIndex (Plot_plotLocator plot2) =
           PlotLocator_pageIndex (Plot_plotLocator plot1) \<and>
         PlotLocator_plotIndex (Plot_plotLocator plot2) =
           PlotLocator_plotIndex (Plot_plotLocator plot1) \<and>
         PlotLocator_genID (Plot_plotLocator plot2) = fGeneration counter1 \<and>
         PlotLocator_genID (Plot_plotLocator plot2) =
           PlotLocator_genID (Plot_plotLocator plot1) + 1 + of_nat k \<and>
         (PlotLocator_genID (Plot_plotLocator plot2) =
           PlotLocator_genID (Plot_plotLocator plot1) + 1) = (k = 0) \<and>
         PlotLocator_genID (Plot_plotLocator plot1) < PlotLocator_genID (Plot_plotLocator plot2) \<and>
         fGeneration counter2 = fGeneration counter1 + 1 \<and>
         Plot_drawn plot2 counter2 \<and>
         \<not> PlotLocator_eq (Plot_plotLocator plot1) (Plot_plotLocator plot2) \<and>
         (\<forall>L \<in> set captured. \<not> PlotLocator_eq L (Plot_plotLocator plot2))"
proof -
  have bound: "unat (fGeneration counter) + sum_list ks + length ks \<le> 2 ^ 48"
    using below by simp
  note inv = evictions_invariant [OF drawn bound, of reset, folded run_def, folded captured_def plot1_def]
  have d1: "Plot_drawn plot1 (snd (snd run))" using inv by simp
  note u1 = Plot_drawn_unat [OF d1]
  have uc: "unat (fGeneration (snd (snd run))) = unat (fGeneration counter) + sum_list ks + length ks"
    using inv by simp
  have ug: "unat (fGeneration counter1) = unat (Plot.fGenID plot1) + 1 + k"
  proof -
    have "unat (fGeneration (snd (snd run)) + of_nat k) = unat (fGeneration (snd (snd run))) + k"
      using uc below by (intro unat_generation_add) simp
    then show ?thesis using u1(2) by (simp add: counter1_def fGeneration_draw)
  qed
  have "unat (fGeneration counter1) < 2 ^ 48"
    using ug u1(2) uc below by simp
  then have lt: "fGeneration counter1 < push_bit 48 1"
    by (simp only: less_2p48_iff)
  have new: "Plot_plotLocator plot2 =
      PlotLocator_ctor (Plot_pageIndex plot1) (Plot_plotIndex plot1) (fGeneration counter1)"
    unfolding plot2_def by (rule resetRects_result)
  have old: "Plot_plotLocator plot1 =
      PlotLocator_ctor (Plot_pageIndex plot1) (Plot_plotIndex plot1) (Plot.fGenID plot1)"
    using d1 by (simp add: Plot_drawn_def Plot_plotLocator_def)
  have pg: "PlotLocator_pageIndex (Plot_plotLocator plot2) =
      PlotLocator_pageIndex (Plot_plotLocator plot1)"
    by (subst new, subst old) (simp only: PlotLocator_index_ctor)
  have pl: "PlotLocator_plotIndex (Plot_plotLocator plot2) =
      PlotLocator_plotIndex (Plot_plotLocator plot1)"
    by (subst new, subst old) (simp only: PlotLocator_index_ctor)
  have gen: "PlotLocator_genID (Plot_plotLocator plot2) = fGeneration counter1"
    unfolding new using lt by (rule PlotLocator_genID_ctor)
  have un: "unat (PlotLocator_genID (Plot_plotLocator plot2)) =
      unat (PlotLocator_genID (Plot_plotLocator plot1)) + 1 + k"
    using gen ug u1(3) by simp
  have k64: "k < 2 ^ 64" using below by simp
  have uo: "unat (PlotLocator_genID (Plot_plotLocator plot1) + 1 + of_nat k) =
      unat (PlotLocator_genID (Plot_plotLocator plot1)) + 1 + k"
  proof -
    have a: "unat (PlotLocator_genID (Plot_plotLocator plot1) + of_nat 1) =
        unat (PlotLocator_genID (Plot_plotLocator plot1)) + 1"
      using u1(1,3) by (intro unat_generation_add) simp
    have "unat ((PlotLocator_genID (Plot_plotLocator plot1) + of_nat 1) + of_nat k) =
        unat (PlotLocator_genID (Plot_plotLocator plot1) + of_nat 1) + k"
      using a u1(1,3) ug uc below by (intro unat_generation_add) simp
    then show ?thesis using a by simp
  qed
  have sum: "PlotLocator_genID (Plot_plotLocator plot2) =
      PlotLocator_genID (Plot_plotLocator plot1) + 1 + of_nat k"
    using un uo by (simp add: word_unat_eq_iff)
  have "unat (PlotLocator_genID (Plot_plotLocator plot1) + of_nat 1) =
      unat (PlotLocator_genID (Plot_plotLocator plot1)) + 1"
    using u1(1,3) by (intro unat_generation_add) simp
  then have u1': "unat (PlotLocator_genID (Plot_plotLocator plot1) + 1) =
      unat (PlotLocator_genID (Plot_plotLocator plot1)) + 1"
    by simp
  have iff: "(PlotLocator_genID (Plot_plotLocator plot2) =
      PlotLocator_genID (Plot_plotLocator plot1) + 1) = (k = 0)"
    using un u1' by (auto simp add: word_unat_eq_iff)
  have less: "PlotLocator_genID (Plot_plotLocator plot1) < PlotLocator_genID (Plot_plotLocator plot2)"
    using un by (simp add: word_less_nat_alt)
  have cnt: "fGeneration counter2 = fGeneration counter1 + 1"
    unfolding counter2_def by (rule resetRects_result)
  have d2: "Plot_drawn plot2 counter2"
    unfolding plot2_def counter2_def using lt by (rule resetRects_drawn)
  have ne: "\<not> PlotLocator_eq (Plot_plotLocator plot1) (Plot_plotLocator plot2)"
    using less PlotLocator_eq_genID by fastforce
  have st: "\<not> PlotLocator_eq L (Plot_plotLocator plot2)" if "L \<in> set captured" for L
  proof
    assume "PlotLocator_eq L (Plot_plotLocator plot2)"
    then have "unat (PlotLocator_genID L) = unat (PlotLocator_genID (Plot_plotLocator plot2))"
      by (simp add: PlotLocator_eq_genID)
    moreover have "unat (PlotLocator_genID L) < unat (Plot.fGenID plot1)"
      using inv that by simp
    ultimately show False using un u1(3) by simp
  qed
  show ?thesis
    using pg pl gen sum iff less cnt d2 ne st by simp
qed

lemma example_plot_fields:
  "Plot_plotLocator (example_plot pg pl g t) = PlotLocator_ctor (ucast pg) (ucast pl) g"
  "Plot_pageIndex (example_plot pg pl g t) = ucast pg"
  "Plot_plotIndex (example_plot pg pl g t) = ucast pl"
  "Plot.fGenID (example_plot pg pl g t) = g"
  by (simp_all add: example_plot_def Plot_plotLocator_def Plot_pageIndex_def Plot_plotIndex_def)

lemma example_run_values:
  "map PlotLocator_genID (fst example_run) = [5, 8]"
  "PlotLocator_genID (Plot_plotLocator (fst (snd example_run))) = 9"
  "PlotLocator_pageIndex (Plot_plotLocator (fst (snd example_run))) = 1"
  "PlotLocator_plotIndex (Plot_plotLocator (fst (snd example_run))) = 2"
  "fGeneration (snd (snd example_run)) = 10"
  by (simp_all add: example_run_def case_prod_unfold resetRects_result fGeneration_draw
      example_plot_fields PlotLocator_genID_ctor PlotLocator_index_ctor)

theorem resetRects_new_locator_witness:
  "Plot_drawn (example_plot 1 2 5 False) \<lparr>fGeneration = 6\<rparr> \<and>
   map PlotLocator_genID (fst example_run) = [5, 8] \<and>
   PlotLocator_genID (Plot_plotLocator (fst (snd example_run))) = 9 \<and>
   PlotLocator_genID (Plot_plotLocator (fst
      (resetRects id (fst (snd example_run)) (draw 3 (snd (snd example_run)))))) = 13 \<and>
   PlotLocator_pageIndex (Plot_plotLocator (fst
      (resetRects id (fst (snd example_run)) (draw 3 (snd (snd example_run)))))) = 1 \<and>
   PlotLocator_plotIndex (Plot_plotLocator (fst
      (resetRects id (fst (snd example_run)) (draw 3 (snd (snd example_run)))))) = 2 \<and>
   fGeneration (snd (resetRects id (fst (snd example_run)) (draw 3 (snd (snd example_run))))) = 14 \<and>
   \<not> PlotLocator_eq (Plot_plotLocator (fst (snd example_run)))
      (Plot_plotLocator (fst
        (resetRects id (fst (snd example_run)) (draw 3 (snd (snd example_run)))))) \<and>
   list_all (\<lambda>L. \<not> PlotLocator_eq L
      (Plot_plotLocator (fst
        (resetRects id (fst (snd example_run)) (draw 3 (snd (snd example_run)))))))
      (fst example_run)"
proof -
  let ?plot = "example_plot 1 2 5 False"
  let ?c = "\<lparr>fGeneration = 6\<rparr>"
  let ?new = "Plot_plotLocator (fst
      (resetRects id (fst (snd example_run)) (draw 3 (snd (snd example_run)))))"
  let ?c2 = "snd (resetRects id (fst (snd example_run)) (draw 3 (snd (snd example_run))))"
  have d: "Plot_drawn ?plot ?c"
    by (simp add: Plot_drawn_def example_plot_def Plot_pageIndex_def Plot_plotIndex_def)
  have b: "unat (fGeneration ?c) + sum_list [2, 0] + length [2 :: nat, 0] + 3 < 2 ^ 48"
    by simp
  have c1: "fGeneration (draw 3 (snd (snd example_run))) = 13"
    by (simp add: fGeneration_draw example_run_values)
  note t = resetRects_new_locator [where plot = ?plot and counter = ?c and ks = "[2, 0]"
      and k = 3 and reset = id, OF d b, folded example_run_def]
  have g: "PlotLocator_genID ?new = 13" using t c1 by simp
  have pg: "PlotLocator_pageIndex ?new = 1" using t example_run_values(3) by simp
  have pl: "PlotLocator_plotIndex ?new = 2" using t example_run_values(4) by simp
  have cn: "fGeneration ?c2 = 14" using t c1 by simp
  have ne: "\<not> PlotLocator_eq (Plot_plotLocator (fst (snd example_run))) ?new"
    using t by blast
  have st: "list_all (\<lambda>L. \<not> PlotLocator_eq L ?new) (fst example_run)"
    unfolding list_all_iff using t by blast
  show ?thesis
    using d example_run_values(1,2) g pg pl cn ne st by (simp only: simp_thms)
qed

text \<open>
  The claim C1 as stated fails: two Plots A and B of one atlas share its counter, which
  hands out 1, 2 and 3 in three calls of \<open>next()\<close>. When A is reset, then B, then A
  again, the generation of A goes from 1 to 3.
\<close>

theorem resetRects_generation_counterexample:
  "PlotLocator_genID (Plot_plotLocator (fst (resetRects id (example_plot 0 0 0 False) AtlasGenerationCounter_init))) = 1 \<and>
   PlotLocator_genID (Plot_plotLocator (fst
      (resetRects id
         (fst (resetRects id (example_plot 0 0 0 False) AtlasGenerationCounter_init))
         (snd (resetRects id (example_plot 0 1 0 False)
            (snd (resetRects id (example_plot 0 0 0 False) AtlasGenerationCounter_init))))))) = 3 \<and>
   next_calls 3 AtlasGenerationCounter_init = [1, 2, 3]"
proof -
  have "next_calls 3 AtlasGenerationCounter_init = [1, 2, 3]"
    by (simp add: AtlasGenerationCounter_init_def AtlasGenerationCounter_next_def numeral_3_eq_3)
  then show ?thesis
    by (simp add: resetRects_def AtlasGenerationCounter_next_def AtlasGenerationCounter_init_def
        Plot_plotLocator_def PlotLocator_ctor_def PlotLocator_genID_def example_plot_def)
qed

text \<open>
  C8. Whenever \<open>addSubImage\<close> returns failure, the packer found no placement, and the
  whole state of the Plot, with its dirty rectangle and its packer, and the locator behind
  \<open>atlasLocator\<close> are what they were before the call.
\<close>

theorem addSubImage_failure_unchanged:
  assumes "\<not> fst (addSubImage tryPlace plot width height pixels atlasLocator)"
  shows "tryPlace (Plot.fRectanizer plot) width height = None \<and>
         addSubImage tryPlace plot width height pixels atlasLocator = (False, plot, atlasLocator)"
  using assms by (auto simp add: addSubImage_def Let_def split: option.splits)

theorem addSubImage_failure_unchanged_witness:
  "\<not> fst (addSubImage one_slot_tryPlace (example_plot 0 0 1 True) 60 60 (\<lambda>_. ()) AtlasLocator_init) \<and>
   addSubImage one_slot_tryPlace (example_plot 0 0 1 True) 60 60 (\<lambda>_. ()) AtlasLocator_init =
     (False, example_plot 0 0 1 True, AtlasLocator_init)"
proof -
  have h: "\<not> fst (addSubImage one_slot_tryPlace (example_plot 0 0 1 True) 60 60 (\<lambda>_. ()) AtlasLocator_init)"
    by (simp add: addSubImage_def one_slot_tryPlace_def example_plot_def)
  show ?thesis using h addSubImage_failure_unchanged [OF h] by simp
qed

end
